theory Spec2Isabelle
  imports Main "HOL-Library.Word"
begin

section \<open>Ordered containers\<close>

text \<open>
  A \<^verbatim>\<open>std::map<K, V>\<close> is an association list kept in ascending key order, so that a
  range-for over the map is a recursion over the list; a \<^verbatim>\<open>std::set<T>\<close> is an ascending
  list without repetitions.  Every operation below is the container operation of the same
  name.  \<^verbatim>\<open>operator[]\<close> is split in two: \<open>std_map_assign\<close> is \<^verbatim>\<open>m[k] = v\<close>, and
  \<open>std_map_index\<close> is a read through \<^verbatim>\<open>m[k]\<close>, which inserts a value-initialised entry
  when the key is absent and returns the map together with the value read.
\<close>

definition std_map_contains :: "'k \<Rightarrow> ('k \<times> 'v) list \<Rightarrow> bool" where
  "std_map_contains k m = (map_of m k \<noteq> None)"

fun std_map_assign :: "'k::linorder \<Rightarrow> 'v \<Rightarrow> ('k \<times> 'v) list \<Rightarrow> ('k \<times> 'v) list" where
  "std_map_assign k v [] = [(k, v)]"
| "std_map_assign k v (e # m) =
     (if k < fst e then (k, v) # e # m
      else if k = fst e then (k, v) # m
      else e # std_map_assign k v m)"

definition std_map_index :: "'v \<Rightarrow> 'k::linorder \<Rightarrow> ('k \<times> 'v) list \<Rightarrow> 'v \<times> ('k \<times> 'v) list" where
  "std_map_index dflt k m =
     (case map_of m k of
        Some v \<Rightarrow> (v, m)
      | None \<Rightarrow> (dflt, std_map_assign k dflt m))"

definition std_map_erase :: "'k \<Rightarrow> ('k \<times> 'v) list \<Rightarrow> ('k \<times> 'v) list" where
  "std_map_erase k m = filter (\<lambda>e. fst e \<noteq> k) m"

definition std_set_contains :: "'a \<Rightarrow> 'a list \<Rightarrow> bool" where
  "std_set_contains v s = (v \<in> set s)"

definition std_set_insert :: "'a::linorder \<Rightarrow> 'a list \<Rightarrow> 'a list" where
  "std_set_insert v s = (if v \<in> set s then s else insort v s)"

definition std_set_erase :: "'a \<Rightarrow> 'a list \<Rightarrow> 'a list" where
  "std_set_erase v s = removeAll v s"

section \<open>Protocol types (server/types.h, server/events.h, server/messages.h)\<close>

type_synonym client_id_t = "64 word"
type_synonym PlayerId = "8 word"
type_synonym Score = "32 word"
type_synonym BombId = "32 word"

datatype Direction = UP | RIGHT | DOWN | LEFT

datatype Position = Position (pos_x: "16 word") (pos_y: "16 word")

text \<open>\<^verbatim>\<open>Position::operator<=>\<close> compares \<^verbatim>\<open>std::tie(x, y)\<close>: lexicographically.\<close>

instantiation Position :: linorder
begin

definition less_eq_Position :: "Position \<Rightarrow> Position \<Rightarrow> bool" where
  "less_eq_Position a b = (pos_x a < pos_x b \<or> (pos_x a = pos_x b \<and> pos_y a \<le> pos_y b))"

definition less_Position :: "Position \<Rightarrow> Position \<Rightarrow> bool" where
  "less_Position a b = (pos_x a < pos_x b \<or> (pos_x a = pos_x b \<and> pos_y a < pos_y b))"

instance
  by standard (auto simp: less_eq_Position_def less_Position_def Position.expand)

end

datatype Player = Player (player_name: string) (player_address: string)

datatype Bomb = Bomb (position: Position) (timer: "16 word")

datatype event_t =
    BombPlaced BombId Position
  | BombExploded BombId "PlayerId list" "Position list"
  | PlayerMoved PlayerId Position
  | BlockPlaced Position

text \<open>
  The client messages; the \<^verbatim>\<open>type\<close> tag each struct carries repeats the variant's
  alternative and is left out.
\<close>

datatype client_mess_t = Join string | PlaceBomb | PlaceBlock | Move Direction

record ServerParams =
  bomb_timer :: "16 word"
  players_count :: "8 word"
  turn_duration :: "64 word"
  explosion_radius :: "16 word"
  initial_blocks :: "16 word"
  game_length :: "16 word"
  server_name :: string
  port :: "16 word"
  seed :: "32 word"
  size_x :: "16 word"
  size_y :: "16 word"

text \<open>
  \<open>Hello\<close> carries, in the order of the struct's fields: server name, players count,
  size x, size y, game length, explosion radius, bomb timer.
\<close>

datatype server_mess_t =
    Hello string "8 word" "16 word" "16 word" "16 word" "16 word" "16 word"
  | AcceptedPlayer PlayerId Player
  | GameStarted "(PlayerId \<times> Player) list"
  | Turn "16 word" "event_t list"
  | GameEnded "(PlayerId \<times> Score) list"

section \<open>The shared server state (server/blocking-queue.h, server/server.h)\<close>

record BlockingQueue =
  queue :: "server_mess_t list"
  is_open :: bool

definition BlockingQueue_new :: "server_mess_t list \<Rightarrow> BlockingQueue" where
  "BlockingQueue_new initial_state = \<lparr>queue = initial_state, is_open = True\<rparr>"

definition push :: "server_mess_t \<Rightarrow> BlockingQueue \<Rightarrow> BlockingQueue" where
  "push val q = q\<lparr>queue := queue q @ [val]\<rparr>"

definition close :: "BlockingQueue \<Rightarrow> BlockingQueue" where
  "close q = q\<lparr>is_open := False\<rparr>"

text \<open>
  \<open>pop\<close> on an empty open queue blocks and on a closed queue throws: in both cases the
  sender gets no message, which is \<open>None\<close>.
\<close>

definition pop :: "BlockingQueue \<Rightarrow> (server_mess_t \<times> BlockingQueue) option" where
  "pop q =
     (if \<not> is_open q then None
      else case queue q of
             [] \<Rightarrow> None
           | first # rest \<Rightarrow> Some (first, q\<lparr>queue := rest\<rparr>))"

record Server =
  players :: "(PlayerId \<times> Player) list"
  player_ids :: "(client_id_t \<times> PlayerId) list"
  client_message_queues :: "(client_id_t \<times> BlockingQueue) list"
  last_messages_from_clients :: "(client_id_t \<times> client_mess_t) list"
  next_client_id :: client_id_t
  is_lobby :: bool
  params :: ServerParams
  message_history :: "server_mess_t list"

definition initializeMessageHistory :: "Server \<Rightarrow> Server" where
  "initializeMessageHistory s =
     s\<lparr>message_history :=
         [Hello (server_name (params s)) (players_count (params s))
            (size_x (params s)) (size_y (params s)) (game_length (params s))
            (explosion_radius (params s)) (bomb_timer (params s))]\<rparr>"

definition Server_new :: "ServerParams \<Rightarrow> Server" where
  "Server_new p =
     initializeMessageHistory
       \<lparr>players = [], player_ids = [], client_message_queues = [],
        last_messages_from_clients = [], next_client_id = 0, is_lobby = True,
        params = p, message_history = []\<rparr>"

definition acceptClient :: "Server \<Rightarrow> client_id_t \<times> Server" where
  "acceptClient s = (next_client_id s, s\<lparr>next_client_id := next_client_id s + 1\<rparr>)"

text \<open>\<open>createMessageQueue\<close> asserts that the client has no queue yet; \<open>None\<close> is the abort.\<close>

definition createMessageQueue :: "client_id_t \<Rightarrow> Server \<Rightarrow> Server option" where
  "createMessageQueue client_id s =
     (if std_map_contains client_id (client_message_queues s) then None
      else Some (s\<lparr>client_message_queues :=
                     std_map_assign client_id (BlockingQueue_new (message_history s))
                       (client_message_queues s)\<rparr>))"

text \<open>
  \<open>eraseClient\<close> reads \<^verbatim>\<open>player_ids[client_id]\<close> through \<^verbatim>\<open>operator[]\<close>.  The client's
  queue is closed before it is erased; closed, it lives on with the sender thread only,
  so the state keeps no trace of it.
\<close>

definition eraseClient :: "client_id_t \<Rightarrow> Server \<Rightarrow> Server" where
  "eraseClient client_id s =
     (let (player_id, ids) = std_map_index 0 client_id (player_ids s);
          s1 = s\<lparr>players := std_map_erase player_id (players s)\<rparr>;
          s2 = s1\<lparr>player_ids := std_map_erase client_id ids\<rparr>;
          s3 = (if std_map_contains client_id (client_message_queues s2)
                then s2\<lparr>client_message_queues :=
                          std_map_erase client_id (client_message_queues s2)\<rparr>
                else s2)
      in s3\<lparr>last_messages_from_clients :=
               std_map_erase client_id (last_messages_from_clients s3)\<rparr>)"

definition setLastMessage :: "client_id_t \<Rightarrow> client_mess_t \<Rightarrow> Server \<Rightarrow> Server" where
  "setLastMessage client_id message s =
     s\<lparr>last_messages_from_clients :=
         std_map_assign client_id message (last_messages_from_clients s)\<rparr>"

text \<open>
  The loop of \<open>collectLastMessagesFromClients\<close>: \<^verbatim>\<open>messages[player_ids[client_id]] = last_message\<close>
  for every entry of the table, in ascending client id.  The read \<^verbatim>\<open>player_ids[client_id]\<close>
  goes through \<^verbatim>\<open>operator[]\<close>.
\<close>

fun collectLoop ::
  "(client_id_t \<times> client_mess_t) list \<Rightarrow> (client_id_t \<times> PlayerId) list \<Rightarrow>
   (PlayerId \<times> client_mess_t) list \<Rightarrow>
   (client_id_t \<times> PlayerId) list \<times> (PlayerId \<times> client_mess_t) list" where
  "collectLoop [] ids messages = (ids, messages)"
| "collectLoop ((client_id, last_message) # rest) ids messages =
     (let (player_id, ids') = std_map_index 0 client_id ids
      in collectLoop rest ids' (std_map_assign player_id last_message messages))"

definition collectLastMessagesFromClients ::
  "Server \<Rightarrow> (PlayerId \<times> client_mess_t) list \<times> Server" where
  "collectLastMessagesFromClients s =
     (let (ids, messages) = collectLoop (last_messages_from_clients s) (player_ids s) []
      in (messages, s\<lparr>player_ids := ids, last_messages_from_clients := []\<rparr>))"

text \<open>
  \<open>broadcast\<close> appends the message to the history and to every open client queue.
\<close>

definition broadcast :: "server_mess_t \<Rightarrow> Server \<Rightarrow> Server" where
  "broadcast message s =
     s\<lparr>message_history := message_history s @ [message],
       client_message_queues :=
         map (\<lambda>(client_id, q). (client_id, if is_open q then push message q else q))
           (client_message_queues s)\<rparr>"

definition tryAcceptPlayer :: "client_id_t \<Rightarrow> string \<Rightarrow> string \<Rightarrow> Server \<Rightarrow> Server" where
  "tryAcceptPlayer client_id nm addr s =
     (if is_lobby s then
        (if \<not> std_map_contains client_id (player_ids s)
            \<and> length (player_ids s) < unat (players_count (params s))
         then
           (let player_id = (word_of_nat (length (player_ids s)) :: PlayerId);
                player = Player nm addr;
                s1 = s\<lparr>player_ids := std_map_assign client_id player_id (player_ids s)\<rparr>;
                s2 = s1\<lparr>players := std_map_assign player_id player (players s1)\<rparr>
            in broadcast (AcceptedPlayer player_id player) s2)
         else s)
      else s)"

definition startLobby :: "Server \<Rightarrow> Server" where
  "startLobby s =
     initializeMessageHistory
       (s\<lparr>is_lobby := True, players := [], player_ids := [],
          last_messages_from_clients := []\<rparr>)"

definition startGame :: "Server \<Rightarrow> Server" where
  "startGame s =
     (let s1 = initializeMessageHistory
                 (s\<lparr>is_lobby := False, last_messages_from_clients := []\<rparr>)
      in broadcast (GameStarted (players s1)) s1)"

text \<open>
  \<open>waitForPlayersToStartGame\<close> blocks until the players table holds \<open>players_count\<close>
  entries; \<open>None\<close> is the state in which the caller stays blocked.
\<close>

definition waitForPlayersToStartGame ::
  "Server \<Rightarrow> ((PlayerId \<times> Player) list \<times> Server) option" where
  "waitForPlayersToStartGame s =
     (if length (players s) = unat (players_count (params s))
      then (let s1 = startGame s in Some (players s1, s1))
      else None)"

definition closeTurn :: "16 word \<Rightarrow> event_t list \<Rightarrow> Server \<Rightarrow> Server" where
  "closeTurn turn_id events s = broadcast (Turn turn_id events) s"

definition endGame :: "(PlayerId \<times> Score) list \<Rightarrow> Server \<Rightarrow> Server" where
  "endGame scores s = startLobby (broadcast (GameEnded scores) s)"

subsection \<open>The threads' calls as a trace\<close>

text \<open>
  Every public method of \<open>Server\<close> runs under the one server mutex, so an execution of the
  server is a sequence of these calls: the acceptor's (\<open>acceptClient\<close>, then
  \<open>createMessageQueue\<close> for the id it was given), a receiver's (\<open>tryAcceptPlayer\<close>,
  \<open>setLastMessage\<close>, \<open>eraseClient\<close> when it fails), a sender's on its queue (\<open>pop\<close>, and
  \<open>close\<close> when it fails) and the game manager's.
\<close>

datatype server_call =
    AcceptorAccepts
  | AcceptorCreatesQueue client_id_t
  | ReceiverJoin client_id_t string string
  | ReceiverIntent client_id_t client_mess_t
  | ReceiverFails client_id_t
  | SenderPops client_id_t
  | SenderFails client_id_t
  | ManagerStartsGame
  | ManagerCollects
  | ManagerClosesTurn "16 word" "event_t list"
  | ManagerEndsGame "(PlayerId \<times> Score) list"

definition onQueue ::
  "client_id_t \<Rightarrow> (BlockingQueue \<Rightarrow> BlockingQueue) \<Rightarrow> Server \<Rightarrow> Server" where
  "onQueue client_id f s =
     s\<lparr>client_message_queues :=
         map (\<lambda>(c, q). (c, if c = client_id then f q else q)) (client_message_queues s)\<rparr>"

fun server_step :: "server_call \<Rightarrow> Server \<Rightarrow> Server option" where
  "server_step AcceptorAccepts s = Some (snd (acceptClient s))"
| "server_step (AcceptorCreatesQueue client_id) s = createMessageQueue client_id s"
| "server_step (ReceiverJoin client_id nm addr) s = Some (tryAcceptPlayer client_id nm addr s)"
| "server_step (ReceiverIntent client_id message) s = Some (setLastMessage client_id message s)"
| "server_step (ReceiverFails client_id) s = Some (eraseClient client_id s)"
| "server_step (SenderPops client_id) s =
     Some (onQueue client_id (\<lambda>q. case pop q of None \<Rightarrow> q | Some (m, q') \<Rightarrow> q') s)"
| "server_step (SenderFails client_id) s = Some (onQueue client_id close s)"
| "server_step ManagerStartsGame s = map_option snd (waitForPlayersToStartGame s)"
| "server_step ManagerCollects s = Some (snd (collectLastMessagesFromClients s))"
| "server_step (ManagerClosesTurn turn_id events) s = Some (closeTurn turn_id events s)"
| "server_step (ManagerEndsGame scores) s = Some (endGame scores s)"

fun server_run :: "server_call list \<Rightarrow> Server \<Rightarrow> Server option" where
  "server_run [] s = Some s"
| "server_run (c # cs) s =
     (case server_step c s of None \<Rightarrow> None | Some s' \<Rightarrow> server_run cs s')"

text \<open>The queue a client holds, as the sender thread of that client sees it.\<close>

definition queue_of :: "client_id_t \<Rightarrow> Server \<Rightarrow> server_mess_t list option" where
  "queue_of client_id s = map_option queue (map_of (client_message_queues s) client_id)"

section \<open>The game manager (server/game-manager.h)\<close>

record GameState =
  bombs :: "(BombId \<times> Bomb) list"
  blocks :: "Position list"
  player_pos :: "(PlayerId \<times> Position) list"
  scores :: "(PlayerId \<times> Score) list"
  next_bomb_id :: BombId

definition GameState_new :: GameState where
  "GameState_new = \<lparr>bombs = [], blocks = [], player_pos = [], scores = [], next_bomb_id = 0\<rparr>"

subsection \<open>The random source\<close>

text \<open>
  \<^verbatim>\<open>std::minstd_rand\<close> is the standard library's
  \<^verbatim>\<open>linear_congruential_engine<uint_fast32_t, 48271, 0, 2147483647>\<close>: seeding with \<open>s\<close> sets
  the state to \<open>s mod m\<close>, or to 1 when that is 0 (the increment being 0), and a draw
  replaces the state \<open>x\<close> by \<open>a * x mod m\<close> and returns it.  The constructor of
  \<open>GameManager\<close> seeds it with \<^verbatim>\<open>params.seed\<close>; the generator is the only member of the
  manager that changes, so it is the value threaded through the functions below.
\<close>

definition minstd_rand_seed :: "32 word \<Rightarrow> nat" where
  "minstd_rand_seed s = (if unat s mod 2147483647 = 0 then 1 else unat s mod 2147483647)"

definition minstd_rand_next :: "nat \<Rightarrow> nat" where
  "minstd_rand_next x = (48271 * x) mod 2147483647"

definition GameManager_random :: "ServerParams \<Rightarrow> nat" where
  "GameManager_random p = minstd_rand_seed (seed p)"

subsection \<open>Initialisation\<close>

fun resetScores :: "(PlayerId \<times> Player) list \<Rightarrow> GameState \<Rightarrow> GameState" where
  "resetScores [] state = state"
| "resetScores ((player_id, player) # rest) state =
     resetScores rest (state\<lparr>scores := std_map_assign player_id 0 []\<rparr>)"

text \<open>
  A position is drawn as \<^verbatim>\<open>random() % size_x\<close>, then \<^verbatim>\<open>random() % size_y\<close> (the braced
  initialiser evaluates left to right).  \<open>parsePositive\<close> admits only sizes in
  \<open>(0, 65535]\<close>, so the divisor is never 0 in a server that started.
\<close>

fun placeMissingRobots ::
  "ServerParams \<Rightarrow> (PlayerId \<times> Player) list \<Rightarrow> GameState \<times> nat \<times> event_t list \<Rightarrow>
   GameState \<times> nat \<times> event_t list" where
  "placeMissingRobots p [] (state, random, events) = (state, random, events)"
| "placeMissingRobots p ((player_id, player) # rest) (state, random, events) =
     (if \<not> std_map_contains player_id (player_pos state) then
        (let r1 = minstd_rand_next random;
             r2 = minstd_rand_next r1;
             pos = Position (word_of_nat (r1 mod unat (size_x p)))
                            (word_of_nat (r2 mod unat (size_y p)));
             state' = state\<lparr>player_pos := std_map_assign player_id pos (player_pos state)\<rparr>
         in placeMissingRobots p rest (state', r2, events @ [PlayerMoved player_id pos]))
      else placeMissingRobots p rest (state, random, events))"

function placeInitialBlocksLoop ::
  "ServerParams \<Rightarrow> 16 word \<Rightarrow> GameState \<times> nat \<times> event_t list \<Rightarrow>
   GameState \<times> nat \<times> event_t list" where
  "placeInitialBlocksLoop p i (state, random, events) =
     (if i < initial_blocks p then
        (let r1 = minstd_rand_next random;
             r2 = minstd_rand_next r1;
             new_block_pos = Position (word_of_nat (r1 mod unat (size_x p)))
                                      (word_of_nat (r2 mod unat (size_y p)));
             state' = state\<lparr>blocks := std_set_insert new_block_pos (blocks state)\<rparr>
         in placeInitialBlocksLoop p (i + 1) (state', r2, events @ [BlockPlaced new_block_pos]))
      else (state, random, events))"
  by pat_completeness auto
termination
proof (relation "measure (\<lambda>(p, i, _). unat (initial_blocks p) - unat i)")
  show "wf (measure (\<lambda>(p, i, _). unat (initial_blocks p) - unat i))"
    by simp
next
  fix p :: ServerParams and i :: "16 word"
    and state :: GameState and random :: nat and events :: "event_t list"
    and x xa xb xc
  assume "i < initial_blocks p"
  then have less: "unat i < unat (initial_blocks p)"
    by (simp add: word_less_nat_alt)
  have "unat (initial_blocks p) < 2 ^ 16"
    using unsigned_less [of "initial_blocks p"] by simp
  with less have "unat i + 1 < 2 ^ 16"
    by linarith
  then have "unat (i + 1) = Suc (unat i)"
    by (simp add: unat_word_ariths)
  with less have "unat (initial_blocks p) - unat (i + 1) < unat (initial_blocks p) - unat i"
    by linarith
  then show "((p, i + 1, xc, xa, events @ [BlockPlaced xb]), (p, i, state, random, events))
               \<in> measure (\<lambda>(p, i, _). unat (initial_blocks p) - unat i)"
    by simp
qed

declare placeInitialBlocksLoop.simps [simp del]

definition placeInitialBlocks ::
  "ServerParams \<Rightarrow> GameState \<times> nat \<times> event_t list \<Rightarrow> GameState \<times> nat \<times> event_t list" where
  "placeInitialBlocks p c = placeInitialBlocksLoop p 0 c"

definition initializeGame ::
  "ServerParams \<Rightarrow> (PlayerId \<times> Player) list \<Rightarrow> GameState \<times> nat \<Rightarrow>
   GameState \<times> nat \<times> event_t list" where
  "initializeGame p players_map c =
     (let (state, random) = c;
          state1 = resetScores players_map state
      in placeInitialBlocks p (placeMissingRobots p players_map (state1, random, [])))"

subsection \<open>Interpreting the clients' messages\<close>

fun getDelta :: "Direction \<Rightarrow> int \<times> int" where
  "getDelta UP = (0, 1)"
| "getDelta DOWN = (0, - 1)"
| "getDelta LEFT = (- 1, 0)"
| "getDelta RIGHT = (1, 0)"

definition placeBomb ::
  "ServerParams \<Rightarrow> Position \<Rightarrow> GameState \<times> event_t list \<Rightarrow> GameState \<times> event_t list" where
  "placeBomb p pos c =
     (let (state, events) = c;
          state1 = state\<lparr>bombs := std_map_assign (next_bomb_id state) (Bomb pos (bomb_timer p))
                                    (bombs state)\<rparr>;
          events1 = events @ [BombPlaced (next_bomb_id state1) pos]
      in (state1\<lparr>next_bomb_id := next_bomb_id state1 + 1\<rparr>, events1))"

definition placeBlock :: "Position \<Rightarrow> GameState \<times> event_t list \<Rightarrow> GameState \<times> event_t list" where
  "placeBlock pos c =
     (let (state, events) = c
      in if \<not> std_set_contains pos (blocks state)
         then (state\<lparr>blocks := std_set_insert pos (blocks state)\<rparr>, events @ [BlockPlaced pos])
         else (state, events))"

definition movePlayer ::
  "ServerParams \<Rightarrow> PlayerId \<Rightarrow> Position \<Rightarrow> GameState \<times> event_t list \<Rightarrow>
   GameState \<times> event_t list" where
  "movePlayer p p_id pos c =
     (let (state, events) = c
      in if pos_x pos \<ge> size_x p \<or> pos_y pos \<ge> size_y p then (state, events)
         else if std_set_contains pos (blocks state) then (state, events)
         else (state\<lparr>player_pos := std_map_assign p_id pos (player_pos state)\<rparr>,
               events @ [PlayerMoved p_id pos]))"

text \<open>
  The three overloads of \<open>interpret\<close>.  Each reads the player's position through
  \<^verbatim>\<open>state.player_pos[p_id]\<close>.
\<close>

definition interpret_PlaceBomb ::
  "ServerParams \<Rightarrow> PlayerId \<Rightarrow> GameState \<times> event_t list \<Rightarrow> GameState \<times> event_t list" where
  "interpret_PlaceBomb p p_id c =
     (let (state, events) = c;
          (pos, pp) = std_map_index (Position 0 0) p_id (player_pos state)
      in placeBomb p pos (state\<lparr>player_pos := pp\<rparr>, events))"

definition interpret_PlaceBlock ::
  "PlayerId \<Rightarrow> GameState \<times> event_t list \<Rightarrow> GameState \<times> event_t list" where
  "interpret_PlaceBlock p_id c =
     (let (state, events) = c;
          (pos, pp) = std_map_index (Position 0 0) p_id (player_pos state);
          state1 = state\<lparr>player_pos := pp\<rparr>
      in if std_set_contains pos (blocks state1) then (state1, events)
         else (let (pos', pp') = std_map_index (Position 0 0) p_id (player_pos state1)
               in placeBlock pos' (state1\<lparr>player_pos := pp'\<rparr>, events)))"

definition interpret_Move ::
  "ServerParams \<Rightarrow> PlayerId \<Rightarrow> Direction \<Rightarrow> GameState \<times> event_t list \<Rightarrow>
   GameState \<times> event_t list" where
  "interpret_Move p p_id direction c =
     (let (state, events) = c;
          (pos, pp) = std_map_index (Position 0 0) p_id (player_pos state);
          state1 = state\<lparr>player_pos := pp\<rparr>;
          (delta_x, delta_y) = getDelta direction;
          new_x = uint (pos_x pos) + delta_x;
          new_y = uint (pos_y pos) + delta_y
      in if 0 \<le> new_x \<and> new_x < uint (size_x p) \<and> 0 \<le> new_y \<and> new_y < uint (size_y p)
         then movePlayer p p_id (Position (word_of_int new_x) (word_of_int new_y)) (state1, events)
         else (state1, events))"

fun interpretAllClientMessages ::
  "ServerParams \<Rightarrow> (PlayerId \<times> client_mess_t) list \<Rightarrow> GameState \<times> event_t list \<Rightarrow>
   GameState \<times> event_t list" where
  "interpretAllClientMessages p [] c = c"
| "interpretAllClientMessages p ((player_id, message) # rest) c =
     (if std_map_contains player_id (player_pos (fst c)) then
        interpretAllClientMessages p rest
          (case message of
             Join nm \<Rightarrow> c
           | PlaceBomb \<Rightarrow> interpret_PlaceBomb p player_id c
           | PlaceBlock \<Rightarrow> interpret_PlaceBlock player_id c
           | Move direction \<Rightarrow> interpret_Move p player_id direction c)
      else interpretAllClientMessages p rest c)"

subsection \<open>Explosions\<close>

text \<open>
  The inner loop of \<open>calcExplosion\<close>, for one direction:
  \<^verbatim>\<open>for (uint16_t r = 0; r <= params.explosion_radius; ++r)\<close>.  The counter is a 16-bit
  word and \<open>r + 1\<close> wraps, so the loop is a partial function: \<open>None\<close> is a loop that does
  not end.  The coordinates are computed in \<^verbatim>\<open>int\<close>, where they cannot overflow.  A point
  outside the board is skipped and the loop goes on; a point with a block is inserted and
  the loop is left.
\<close>

partial_function (option) calcExplosion_arm ::
  "ServerParams \<Rightarrow> GameState \<Rightarrow> Position \<Rightarrow> int \<Rightarrow> int \<Rightarrow> 16 word \<Rightarrow> Position list \<Rightarrow>
   Position list option" where
  "calcExplosion_arm p state bomb_pos dx dy r affected_pos =
     (if r \<le> explosion_radius p then
        (let x = uint (pos_x bomb_pos) + dx * uint r;
             y = uint (pos_y bomb_pos) + dy * uint r
         in if 0 \<le> x \<and> x < uint (size_x p) \<and> 0 \<le> y \<and> y < uint (size_y p) then
              (let pos = Position (word_of_int x) (word_of_int y);
                   affected_pos' = std_set_insert pos affected_pos
               in if std_set_contains pos (blocks state) then Some affected_pos'
                  else calcExplosion_arm p state bomb_pos dx dy (r + 1) affected_pos')
            else calcExplosion_arm p state bomb_pos dx dy (r + 1) affected_pos)
      else Some affected_pos)"

declare calcExplosion_arm.simps [code]

text \<open>The outer loop, over the directions \<open>(dx[i], dy[i])\<close>.\<close>

fun calcExplosion_arms ::
  "ServerParams \<Rightarrow> GameState \<Rightarrow> Position \<Rightarrow> (int \<times> int) list \<Rightarrow> Position list \<Rightarrow>
   Position list option" where
  "calcExplosion_arms p state bomb_pos [] affected_pos = Some affected_pos"
| "calcExplosion_arms p state bomb_pos ((dx, dy) # rest) affected_pos =
     (case calcExplosion_arm p state bomb_pos dx dy 0 affected_pos of
        None \<Rightarrow> None
      | Some affected_pos' \<Rightarrow> calcExplosion_arms p state bomb_pos rest affected_pos')"

definition directions :: "(int \<times> int) list" where
  "directions = [(1, 0), (- 1, 0), (0, 1), (0, - 1)]"

definition calcExplosion :: "ServerParams \<Rightarrow> Position \<Rightarrow> GameState \<Rightarrow> Position list option" where
  "calcExplosion p bomb_pos state = calcExplosion_arms p state bomb_pos directions []"

fun calcDestroyedRobots_loop ::
  "Position list \<Rightarrow> (PlayerId \<times> Position) list \<Rightarrow> PlayerId list \<Rightarrow> PlayerId list" where
  "calcDestroyedRobots_loop affected [] robots_destroyed = robots_destroyed"
| "calcDestroyedRobots_loop affected ((player_id, pos) # rest) robots_destroyed =
     calcDestroyedRobots_loop affected rest
       (if std_set_contains pos affected then std_set_insert player_id robots_destroyed
        else robots_destroyed)"

definition calcDestroyedRobots :: "Position list \<Rightarrow> GameState \<Rightarrow> PlayerId list" where
  "calcDestroyedRobots positions_affected_by_explosion state =
     calcDestroyedRobots_loop positions_affected_by_explosion (player_pos state) []"

fun calcDestroyedBlocks_loop ::
  "GameState \<Rightarrow> Position list \<Rightarrow> Position list \<Rightarrow> Position list" where
  "calcDestroyedBlocks_loop state [] blocks_destroyed = blocks_destroyed"
| "calcDestroyedBlocks_loop state (pos # rest) blocks_destroyed =
     calcDestroyedBlocks_loop state rest
       (if std_set_contains pos (blocks state) then std_set_insert pos blocks_destroyed
        else blocks_destroyed)"

definition calcDestroyedBlocks :: "Position list \<Rightarrow> GameState \<Rightarrow> Position list" where
  "calcDestroyedBlocks positions_affected_by_explosion state =
     calcDestroyedBlocks_loop state positions_affected_by_explosion []"

text \<open>
  \<^verbatim>\<open>state.bombs.at(id)\<close> throws when the bomb is absent; like a loop that does not end, that
  gives the caller no result.
\<close>

definition calcExplosionResult ::
  "ServerParams \<Rightarrow> BombId \<Rightarrow> GameState \<Rightarrow> (PlayerId list \<times> Position list) option" where
  "calcExplosionResult p bomb_id state =
     (case map_of (bombs state) bomb_id of
        None \<Rightarrow> None
      | Some bomb \<Rightarrow>
          (case calcExplosion p (position bomb) state of
             None \<Rightarrow> None
           | Some affected_positions \<Rightarrow>
               Some (calcDestroyedRobots affected_positions state,
                     calcDestroyedBlocks affected_positions state)))"

subsection \<open>A turn\<close>

text \<open>
  The first loop of \<open>updateBombs\<close> walks the bombs in ascending id and changes the timers
  in place: \<open>visited\<close> are the entries already seen, \<open>remaining\<close> those to come, and
  the state the explosion is computed in holds both.  The accumulator is the three local sets
  and the event list.
\<close>

fun updateBombs_loop ::
  "ServerParams \<Rightarrow> GameState \<Rightarrow> (BombId \<times> Bomb) list \<Rightarrow> (BombId \<times> Bomb) list \<Rightarrow>
   PlayerId list \<times> Position list \<times> BombId list \<times> event_t list \<Rightarrow>
   (GameState \<times> PlayerId list \<times> Position list \<times> BombId list \<times> event_t list) option" where
  "updateBombs_loop p state visited [] acc = Some (state\<lparr>bombs := visited\<rparr>, acc)"
| "updateBombs_loop p state visited ((bomb_id, bomb) # remaining)
       (robots_destroyed_total, blocks_destroyed_total, bombs_exploded, events) =
     (if timer bomb > 1 then
        updateBombs_loop p state (visited @ [(bomb_id, Bomb (position bomb) (timer bomb - 1))]) remaining
          (robots_destroyed_total, blocks_destroyed_total, bombs_exploded, events)
      else
        (case calcExplosionResult p bomb_id (state\<lparr>bombs := visited @ (bomb_id, bomb) # remaining\<rparr>) of
           None \<Rightarrow> None
         | Some (robots_destroyed, blocks_destroyed) \<Rightarrow>
             updateBombs_loop p state (visited @ [(bomb_id, bomb)]) remaining
               (fold std_set_insert robots_destroyed robots_destroyed_total,
                fold std_set_insert blocks_destroyed blocks_destroyed_total,
                std_set_insert bomb_id bombs_exploded,
                events @ [BombExploded bomb_id robots_destroyed blocks_destroyed])))"

text \<open>
  The second loop: \<^verbatim>\<open>state.scores[id] = {state.scores[id].value + 1}\<close>, then the robot's
  position is erased.
\<close>

fun updateBombs_robots :: "PlayerId list \<Rightarrow> GameState \<Rightarrow> GameState" where
  "updateBombs_robots [] state = state"
| "updateBombs_robots (player_id # rest) state =
     (let (score, sc) = std_map_index 0 player_id (scores state)
      in updateBombs_robots rest
           (state\<lparr>scores := std_map_assign player_id (score + 1) sc,
                  player_pos := std_map_erase player_id (player_pos state)\<rparr>))"

definition updateBombs ::
  "ServerParams \<Rightarrow> GameState \<times> event_t list \<Rightarrow> (GameState \<times> event_t list) option" where
  "updateBombs p c =
     (let (state, events) = c
      in case updateBombs_loop p state [] (bombs state) ([], [], [], events) of
           None \<Rightarrow> None
         | Some (state1, robots_destroyed_total, blocks_destroyed_total, bombs_exploded, events1) \<Rightarrow>
             (let state2 = updateBombs_robots robots_destroyed_total state1;
                  state3 = state2\<lparr>blocks := fold std_set_erase blocks_destroyed_total (blocks state2)\<rparr>;
                  state4 = state3\<lparr>bombs := fold std_map_erase bombs_exploded (bombs state3)\<rparr>
              in Some (state4, events1)))"

text \<open>
  The body of the turn loop of \<open>run\<close>, between the sleep and \<open>closeTurn\<close>:
  \<open>client_messages\<close> is what \<open>collectLastMessagesFromClients\<close> returned.
\<close>

definition playTurn ::
  "ServerParams \<Rightarrow> (PlayerId \<times> Player) list \<Rightarrow> (PlayerId \<times> client_mess_t) list \<Rightarrow>
   GameState \<times> nat \<Rightarrow> (GameState \<times> nat \<times> event_t list) option" where
  "playTurn p players_map client_messages c =
     (let (state, random) = c
      in case updateBombs p (state, []) of
           None \<Rightarrow> None
         | Some c1 \<Rightarrow>
             (let (state2, events2) = interpretAllClientMessages p client_messages c1
              in Some (placeMissingRobots p players_map (state2, random, events2))))"

subsection \<open>A game\<close>

text \<open>
  The turn loop \<^verbatim>\<open>for (uint16_t turn = 1; turn <= params.game_length; ++turn)\<close>, followed by
  \<open>endGame\<close>.  The clients' messages of the turns to come are the list \<open>intents\<close>, one
  snapshot for each turn, and the result is the frames handed to \<open>closeTurn\<close> and
  \<open>endGame\<close> so far, with the state the game ended in.  The second component is \<open>None\<close>
  when the game has not ended after the turns \<open>intents\<close> provides for: the loop is still
  running (the counter is a 16-bit word and \<open>turn + 1\<close> wraps), or a turn gave no result.
\<close>

fun turnLoop ::
  "ServerParams \<Rightarrow> (PlayerId \<times> Player) list \<Rightarrow> 16 word \<Rightarrow> (PlayerId \<times> client_mess_t) list list \<Rightarrow>
   GameState \<times> nat \<Rightarrow> server_mess_t list \<Rightarrow> server_mess_t list \<times> (GameState \<times> nat) option" where
  "turnLoop p players_map turn [] c sent =
     (if turn \<le> game_length p then (sent, None)
      else (sent @ [GameEnded (scores (fst c))], Some c))"
| "turnLoop p players_map turn (client_messages # intents) c sent =
     (if turn \<le> game_length p then
        (case playTurn p players_map client_messages c of
           None \<Rightarrow> (sent, None)
         | Some (state, random, events) \<Rightarrow>
             turnLoop p players_map (turn + 1) intents (state, random) (sent @ [Turn turn events]))
      else (sent @ [GameEnded (scores (fst c))], Some c))"

text \<open>
  One round of the outer loop of \<open>run\<close>, from the players \<open>waitForPlayersToStartGame\<close>
  returned: a fresh \<open>GameState\<close>, \<open>initializeGame\<close>, \<open>closeTurn(0, ...)\<close>, the turns.
\<close>

definition playGame ::
  "ServerParams \<Rightarrow> (PlayerId \<times> Player) list \<Rightarrow> (PlayerId \<times> client_mess_t) list list \<Rightarrow> nat \<Rightarrow>
   server_mess_t list \<times> (GameState \<times> nat) option" where
  "playGame p players_map intents random =
     (let (state, random1, initial_events) = initializeGame p players_map (GameState_new, random)
      in turnLoop p players_map 1 intents (state, random1) [Turn 0 initial_events])"

section \<open>The client's view (client/types.h, client/events.h)\<close>

text \<open>
  \<open>ClientState\<close>, without its mutex.  The fields carry the prefix \<open>c_\<close>, since most of
  their names are those of the server's parameters and game state.
\<close>

record ClientState =
  c_robots_destroyed_in_turn :: "PlayerId list"
  c_blocks_destroyed_in_turn :: "Position list"
  c_is_lobby :: bool
  c_player_name :: string
  c_server_name :: string
  c_players_count :: "8 word"
  c_size_x :: "16 word"
  c_size_y :: "16 word"
  c_game_length :: "16 word"
  c_explosion_radius :: "16 word"
  c_bomb_timer :: "16 word"
  c_turn :: "16 word"
  c_players :: "(PlayerId \<times> Player) list"
  c_player_positions :: "(PlayerId \<times> Position) list"
  c_blocks :: "Position list"
  c_bombs :: "(BombId \<times> Bomb) list"
  c_explosions :: "Position list"
  c_scores :: "(PlayerId \<times> Score) list"

definition BombPlaced_apply :: "BombId \<Rightarrow> Position \<Rightarrow> ClientState \<Rightarrow> ClientState" where
  "BombPlaced_apply bomb_id pos c =
     c\<lparr>c_bombs := std_map_assign bomb_id (Bomb pos (c_bomb_timer c)) (c_bombs c)\<rparr>"

text \<open>
  The inner loop of the client's \<open>calcExplosion\<close>, which inserts into \<open>c.explosions\<close>; its
  counter is a 16-bit word as well.
\<close>

partial_function (option) BombExploded_calcExplosion_arm ::
  "Position \<Rightarrow> int \<Rightarrow> int \<Rightarrow> 16 word \<Rightarrow> ClientState \<Rightarrow> ClientState option" where
  "BombExploded_calcExplosion_arm bomb_pos dx dy r c =
     (if r \<le> c_explosion_radius c then
        (let x = uint (pos_x bomb_pos) + dx * uint r;
             y = uint (pos_y bomb_pos) + dy * uint r
         in if 0 \<le> x \<and> x < uint (c_size_x c) \<and> 0 \<le> y \<and> y < uint (c_size_y c) then
              (let pos = Position (word_of_int x) (word_of_int y);
                   c' = c\<lparr>c_explosions := std_set_insert pos (c_explosions c)\<rparr>
               in if std_set_contains pos (c_blocks c') then Some c'
                  else BombExploded_calcExplosion_arm bomb_pos dx dy (r + 1) c')
            else BombExploded_calcExplosion_arm bomb_pos dx dy (r + 1) c)
      else Some c)"

declare BombExploded_calcExplosion_arm.simps [code]

fun BombExploded_calcExplosion_arms ::
  "Position \<Rightarrow> (int \<times> int) list \<Rightarrow> ClientState \<Rightarrow> ClientState option" where
  "BombExploded_calcExplosion_arms bomb_pos [] c = Some c"
| "BombExploded_calcExplosion_arms bomb_pos ((dx, dy) # rest) c =
     (case BombExploded_calcExplosion_arm bomb_pos dx dy 0 c of
        None \<Rightarrow> None
      | Some c' \<Rightarrow> BombExploded_calcExplosion_arms bomb_pos rest c')"

text \<open>
  \<^verbatim>\<open>auto bomb_pos = c.bombs[id].position\<close>: the read goes through \<^verbatim>\<open>operator[]\<close>, and a
  value-initialised \<open>Bomb\<close> is at \<open>(0, 0)\<close> with timer 0.
\<close>

definition BombExploded_calcExplosion :: "BombId \<Rightarrow> ClientState \<Rightarrow> ClientState option" where
  "BombExploded_calcExplosion bomb_id c =
     (let (bomb, bs) = std_map_index (Bomb (Position 0 0) 0) bomb_id (c_bombs c)
      in BombExploded_calcExplosion_arms (position bomb) directions (c\<lparr>c_bombs := bs\<rparr>))"

fun BombExploded_robots :: "PlayerId list \<Rightarrow> ClientState \<Rightarrow> ClientState" where
  "BombExploded_robots [] c = c"
| "BombExploded_robots (player_id # rest) c =
     BombExploded_robots rest
       (c\<lparr>c_robots_destroyed_in_turn := std_set_insert player_id (c_robots_destroyed_in_turn c),
          c_player_positions := std_map_erase player_id (c_player_positions c)\<rparr>)"

definition BombExploded_apply ::
  "BombId \<Rightarrow> PlayerId list \<Rightarrow> Position list \<Rightarrow> ClientState \<Rightarrow> ClientState option" where
  "BombExploded_apply bomb_id robots_destroyed blocks_destroyed c =
     (case BombExploded_calcExplosion bomb_id c of
        None \<Rightarrow> None
      | Some c1 \<Rightarrow>
          (let c2 = c1\<lparr>c_blocks_destroyed_in_turn :=
                         fold std_set_insert blocks_destroyed (c_blocks_destroyed_in_turn c1)\<rparr>;
               c3 = BombExploded_robots robots_destroyed c2
           in Some (c3\<lparr>c_bombs := std_map_erase bomb_id (c_bombs c3)\<rparr>)))"

definition PlayerMoved_apply :: "PlayerId \<Rightarrow> Position \<Rightarrow> ClientState \<Rightarrow> ClientState" where
  "PlayerMoved_apply player_id pos c =
     c\<lparr>c_player_positions := std_map_assign player_id pos (c_player_positions c)\<rparr>"

definition BlockPlaced_apply :: "Position \<Rightarrow> ClientState \<Rightarrow> ClientState" where
  "BlockPlaced_apply pos c = c\<lparr>c_blocks := std_set_insert pos (c_blocks c)\<rparr>"

fun event_apply :: "event_t \<Rightarrow> ClientState \<Rightarrow> ClientState option" where
  "event_apply (BombPlaced bomb_id pos) c = Some (BombPlaced_apply bomb_id pos c)"
| "event_apply (BombExploded bomb_id robots_destroyed blocks_destroyed) c =
     BombExploded_apply bomb_id robots_destroyed blocks_destroyed c"
| "event_apply (PlayerMoved player_id pos) c = Some (PlayerMoved_apply player_id pos c)"
| "event_apply (BlockPlaced pos) c = Some (BlockPlaced_apply pos c)"

section \<open>Notions the properties are stated with\<close>

definition hello_of :: "ServerParams \<Rightarrow> server_mess_t" where
  "hello_of p =
     Hello (server_name p) (players_count p) (size_x p) (size_y p) (game_length p)
       (explosion_radius p) (bomb_timer p)"

text \<open>
  The calls that can happen while a game is on: all but the manager's own start and end
  of a game.  \<open>turn_frames\<close> are the \<open>Turn\<close> frames a sequence of calls broadcasts.
\<close>

fun mid_game_call :: "server_call \<Rightarrow> bool" where
  "mid_game_call ManagerStartsGame = False"
| "mid_game_call (ManagerEndsGame final_scores) = False"
| "mid_game_call c = True"

fun turn_frames :: "server_call list \<Rightarrow> server_mess_t list" where
  "turn_frames [] = []"
| "turn_frames (ManagerClosesTurn turn_id events # cs) = Turn turn_id events # turn_frames cs"
| "turn_frames (c # cs) = turn_frames cs"

subsection \<open>Example inputs\<close>

definition one_player_params :: ServerParams where
  "one_player_params =
     \<lparr>bomb_timer = 1, players_count = 1, turn_duration = 100, explosion_radius = 0,
      initial_blocks = 0, game_length = 2, server_name = ''srv'', port = 2022, seed = 1,
      size_x = 1, size_y = 1\<rparr>"

definition two_player_params :: ServerParams where
  "two_player_params = one_player_params\<lparr>players_count := 2\<rparr>"

definition alice :: Player where
  "alice = Player ''alice'' ''[::1]:5000''"

definition bob :: Player where
  "bob = Player ''bob'' ''[::1]:5001''"

text \<open>
  The lobby of a server with parameters \<open>p\<close> after one client (client 0) has connected
  and joined as player 0.
\<close>

definition lobby_with_alice :: "ServerParams \<Rightarrow> Server" where
  "lobby_with_alice p =
     \<lparr>players = [(0, alice)], player_ids = [(0, 0)],
      client_message_queues =
        [(0, \<lparr>queue = [hello_of p, AcceptedPlayer 0 alice], is_open = True\<rparr>)],
      last_messages_from_clients = [], next_client_id = 1, is_lobby = True,
      params = p,
      message_history = [hello_of p, AcceptedPlayer 0 alice]\<rparr>"

text \<open>
  The table of moves as the specification gives it:
  \<open>Up: (0, +1)\<close>, \<open>Right: (+1, 0)\<close>, \<open>Down: (0, -1)\<close>, \<open>Left: (-1, 0)\<close>.
\<close>

definition move_delta :: "Direction \<Rightarrow> int \<times> int" where
  "move_delta d = (case d of UP \<Rightarrow> (0, 1) | RIGHT \<Rightarrow> (1, 0) | DOWN \<Rightarrow> (0, - 1) | LEFT \<Rightarrow> (- 1, 0))"

text \<open>A board of 5 by 5 cells and a state with the robot of player 0 in the corner.\<close>

definition board_params :: ServerParams where
  "board_params =
     \<lparr>bomb_timer = 2, players_count = 1, turn_duration = 100, explosion_radius = 3,
      initial_blocks = 0, game_length = 10, server_name = ''srv'', port = 2022, seed = 42,
      size_x = 5, size_y = 5\<rparr>"

definition corner_state :: GameState where
  "corner_state = GameState_new\<lparr>player_pos := [(0, Position 0 0)]\<rparr>"

subsection \<open>The explosion cross of the specification\<close>

text \<open>
  The cross is defined here from the specification's words, not from the code.  Step \<open>r\<close>
  of the arm in direction \<open>d\<close> is the point \<open>bomb + r * d\<close>; \<open>on_board\<close> says that it lies
  within the bounds and \<open>cell\<close> is the point as a position.  An arm of \<open>n\<close> steps from
  step \<open>r\<close> on: a point out of bounds ends the arm and is excluded, a point with a block
  ends the arm after being included, any other point is included and the arm goes on.
  The cross is the four arms of \<open>explosion_radius + 1\<close> steps (\<open>r = 0 .. explosion_radius\<close>).
\<close>

definition on_board :: "16 word \<Rightarrow> 16 word \<Rightarrow> Position \<Rightarrow> int \<times> int \<Rightarrow> nat \<Rightarrow> bool" where
  "on_board sx sy bomb_pos d r =
     (0 \<le> uint (pos_x bomb_pos) + fst d * int r \<and> uint (pos_x bomb_pos) + fst d * int r < uint sx
      \<and> 0 \<le> uint (pos_y bomb_pos) + snd d * int r \<and> uint (pos_y bomb_pos) + snd d * int r < uint sy)"

definition cell :: "Position \<Rightarrow> int \<times> int \<Rightarrow> nat \<Rightarrow> Position" where
  "cell bomb_pos d r =
     Position (word_of_int (uint (pos_x bomb_pos) + fst d * int r))
              (word_of_int (uint (pos_y bomb_pos) + snd d * int r))"

fun cross_arm :: "16 word \<Rightarrow> 16 word \<Rightarrow> Position set \<Rightarrow> Position \<Rightarrow> int \<times> int \<Rightarrow> nat \<Rightarrow> nat \<Rightarrow> Position set" where
  "cross_arm sx sy blks bomb_pos d 0 r = {}"
| "cross_arm sx sy blks bomb_pos d (Suc n) r =
     (if \<not> on_board sx sy bomb_pos d r then {}
      else if cell bomb_pos d r \<in> blks then {cell bomb_pos d r}
      else insert (cell bomb_pos d r) (cross_arm sx sy blks bomb_pos d n (Suc r)))"

definition explosion_cross ::
  "16 word \<Rightarrow> 16 word \<Rightarrow> 16 word \<Rightarrow> Position set \<Rightarrow> Position \<Rightarrow> Position set" where
  "explosion_cross sx sy radius blks bomb_pos =
     cross_arm sx sy blks bomb_pos (1, 0) (Suc (unat radius)) 0
     \<union> cross_arm sx sy blks bomb_pos (- 1, 0) (Suc (unat radius)) 0
     \<union> cross_arm sx sy blks bomb_pos (0, 1) (Suc (unat radius)) 0
     \<union> cross_arm sx sy blks bomb_pos (0, - 1) (Suc (unat radius)) 0"

text \<open>The 5 by 5 board with the largest radius the command line accepts.\<close>

definition max_radius_params :: ServerParams where
  "max_radius_params = board_params\<lparr>explosion_radius := 65535\<rparr>"

subsection \<open>Client and server on the same board\<close>

text \<open>
  \<open>same_board\<close>: the client's view and the server's state agree on the input of an
  explosion (board dimensions, radius, set of blocks).  \<open>stored_bomb_position\<close> is the
  position \<^verbatim>\<open>c.bombs[id].position\<close> reads: that of the stored bomb, or \<open>(0, 0)\<close> when the
  client holds no bomb of that id.
\<close>

definition same_board :: "ClientState \<Rightarrow> ServerParams \<Rightarrow> GameState \<Rightarrow> bool" where
  "same_board c p state =
     (c_size_x c = size_x p \<and> c_size_y c = size_y p \<and> c_explosion_radius c = explosion_radius p
      \<and> set (c_blocks c) = set (blocks state))"

definition stored_bomb_position :: "BombId \<Rightarrow> ClientState \<Rightarrow> Position" where
  "stored_bomb_position bomb_id c =
     (case map_of (c_bombs c) bomb_id of Some bomb \<Rightarrow> position bomb | None \<Rightarrow> Position 0 0)"

text \<open>
  How the results of the two loops are related when the client starts with the cells \<open>X\<close>
  (and those the server has collected so far) in \<open>explosions\<close>: the client's state has
  changed in \<open>explosions\<close> only, which holds \<open>X\<close> and the server's affected cells.
\<close>

definition arm_related :: "ClientState \<Rightarrow> Position set \<Rightarrow> ClientState \<Rightarrow> Position list \<Rightarrow> bool" where
  "arm_related c X c' affected =
     (\<exists>E. c' = c\<lparr>c_explosions := E\<rparr> \<and> set E = X \<union> set affected)"

text \<open>
  A client and a server state on the 5 by 5 board with radius 3: a bomb at \<open>(1, 2)\<close> and a
  block two cells east of it.  \<open>stuck_client\<close> is a client that was told radius 65535
  and holds neither blocks nor bombs.
\<close>

definition example_client :: ClientState where
  "example_client =
     \<lparr>c_robots_destroyed_in_turn = [], c_blocks_destroyed_in_turn = [], c_is_lobby = False,
      c_player_name = ''alice'', c_server_name = ''srv'', c_players_count = 1,
      c_size_x = 5, c_size_y = 5, c_game_length = 10, c_explosion_radius = 3, c_bomb_timer = 2,
      c_turn = 3, c_players = [(0, alice)], c_player_positions = [(0, Position 0 0)],
      c_blocks = [Position 3 2], c_bombs = [(0, Bomb (Position 1 2) 1)], c_explosions = [],
      c_scores = [(0, 0)]\<rparr>"

definition example_state :: GameState where
  "example_state =
     \<lparr>bombs = [(0, Bomb (Position 1 2) 1)], blocks = [Position 3 2],
      player_pos = [(0, Position 0 0)], scores = [(0, 0)], next_bomb_id = 1\<rparr>"

definition stuck_client :: ClientState where
  "stuck_client = example_client\<lparr>c_explosion_radius := 65535, c_blocks := [], c_bombs := []\<rparr>"

subsection \<open>Parameters and players of a game\<close>

text \<open>
  \<open>valid_params\<close>: the ranges \<open>parseParams\<close> checks before the server starts.
  \<open>same_game_params\<close>: two parameter records agree on the seed and on everything else
  but the server's name, its port and the duration of a turn.  \<open>all_placed\<close>: every
  player of the game has a robot on the board.  \<open>drawn_position\<close>: the position the next
  two draws of the generator give.
\<close>

definition valid_params :: "ServerParams \<Rightarrow> bool" where
  "valid_params p =
     (0 < bomb_timer p \<and> 0 < players_count p \<and> 0 < turn_duration p \<and> 0 < game_length p
      \<and> length (server_name p) \<le> 255 \<and> 0 < port p \<and> 0 < seed p \<and> 0 < size_x p \<and> 0 < size_y p)"

definition same_game_params :: "ServerParams \<Rightarrow> ServerParams \<Rightarrow> bool" where
  "same_game_params p1 p2 =
     (seed p1 = seed p2 \<and> size_x p1 = size_x p2 \<and> size_y p1 = size_y p2
      \<and> initial_blocks p1 = initial_blocks p2 \<and> game_length p1 = game_length p2
      \<and> bomb_timer p1 = bomb_timer p2 \<and> explosion_radius p1 = explosion_radius p2
      \<and> players_count p1 = players_count p2)"

definition all_placed :: "(PlayerId \<times> Player) list \<Rightarrow> GameState \<Rightarrow> bool" where
  "all_placed players_map state = list_all (\<lambda>e. std_map_contains (fst e) (player_pos state)) players_map"

definition drawn_position :: "ServerParams \<Rightarrow> nat \<Rightarrow> Position" where
  "drawn_position p random =
     Position (word_of_nat (minstd_rand_next random mod unat (size_x p)))
              (word_of_nat (minstd_rand_next (minstd_rand_next random) mod unat (size_y p)))"

text \<open>
  The first scenario of the specification: one player, seed 42, a board of 4 by 4,
  two initial blocks, three turns; and the same game on a server of another name, port
  and pace.
\<close>

definition scenario_params :: ServerParams where
  "scenario_params =
     \<lparr>bomb_timer = 2, players_count = 1, turn_duration = 100, explosion_radius = 1,
      initial_blocks = 2, game_length = 3, server_name = ''srv'', port = 2022, seed = 42,
      size_x = 4, size_y = 4\<rparr>"

definition renamed_scenario_params :: ServerParams where
  "renamed_scenario_params =
     scenario_params\<lparr>server_name := ''other'', port := 4000, turn_duration := 5\<rparr>"

subsection \<open>Scores and destroyed robots\<close>

text \<open>
  \<open>destroyed_entries\<close>: the \<open>PlayerId\<close> entries of the \<open>robots_destroyed\<close> lists of the
  \<open>BombExploded\<close> events among some events, in order and with repetitions.
  \<open>entries_in_game\<close> counts them over the \<open>Turn\<close> frames of a game;
  \<open>robots_destroyed_in_game\<close> counts, for each \<open>Turn\<close> frame, the different players among
  them.  \<open>score_total\<close> is the sum of a scores table and \<open>score_of\<close> a player's score in
  it, 0 for a player without entry.
\<close>

fun robots_destroyed_of :: "event_t \<Rightarrow> PlayerId list" where
  "robots_destroyed_of (BombExploded bomb_id robots_destroyed blocks_destroyed) = robots_destroyed"
| "robots_destroyed_of e = []"

definition destroyed_entries :: "event_t list \<Rightarrow> PlayerId list" where
  "destroyed_entries events = concat (map robots_destroyed_of events)"

fun frame_events :: "server_mess_t \<Rightarrow> event_t list" where
  "frame_events (Turn turn_id events) = events"
| "frame_events m = []"

definition entries_in_game :: "server_mess_t list \<Rightarrow> nat" where
  "entries_in_game frames = sum_list (map (\<lambda>m. length (destroyed_entries (frame_events m))) frames)"

definition robots_destroyed_in_game :: "server_mess_t list \<Rightarrow> nat" where
  "robots_destroyed_in_game frames =
     sum_list (map (\<lambda>m. card (set (destroyed_entries (frame_events m)))) frames)"

definition score_total :: "(PlayerId \<times> Score) list \<Rightarrow> nat" where
  "score_total sc = sum_list (map (\<lambda>e. unat (snd e)) sc)"

definition score_of :: "(PlayerId \<times> Score) list \<Rightarrow> PlayerId \<Rightarrow> nat" where
  "score_of sc k = (case map_of sc k of None \<Rightarrow> 0 | Some s \<Rightarrow> unat s)"

text \<open>
  A step from \<open>c\<close> to \<open>c'\<close> (state and events of a turn) is \<open>quiet\<close> when it changes no
  score and appends no \<open>BombExploded\<close> with a destroyed robot.
\<close>

definition quiet :: "GameState \<times> event_t list \<Rightarrow> GameState \<times> event_t list \<Rightarrow> bool" where
  "quiet c c' = (scores (fst c') = scores (fst c)
                 \<and> destroyed_entries (snd c') = destroyed_entries (snd c))"

text \<open>
  A duel on a board of one cell: two players, bombs that explode the turn after they are
  placed, two turns; both players place a bomb in turn 1.
\<close>

definition duel_params :: ServerParams where
  "duel_params =
     \<lparr>bomb_timer = 1, players_count = 2, turn_duration = 100, explosion_radius = 0,
      initial_blocks = 0, game_length = 2, server_name = ''srv'', port = 2022, seed = 1,
      size_x = 1, size_y = 1\<rparr>"

definition duel_intents :: "(PlayerId \<times> client_mess_t) list list" where
  "duel_intents = [[(0, PlaceBomb), (1, PlaceBomb)], []]"

section \<open>Properties of the containers\<close>

lemma map_of_std_map_assign: "map_of (std_map_assign k v m) = (map_of m)(k \<mapsto> v)"
  by (induction m) auto

lemma set_std_set_insert: "set (std_set_insert v s) = insert v (set s)"
  by (auto simp: std_set_insert_def set_insort_key)

lemma set_fold_std_set_insert: "set (fold std_set_insert xs s) = set s \<union> set xs"
  by (induction xs arbitrary: s) (auto simp: set_std_set_insert)

lemma map_of_std_map_erase: "map_of (std_map_erase k m) = (map_of m)(k := None)"
  by (induction m) (auto simp: std_map_erase_def)

lemma std_map_contains_assign:
  "std_map_contains k (std_map_assign k' v m) = (k = k' \<or> std_map_contains k m)"
  by (simp add: std_map_contains_def map_of_std_map_assign)

lemma distinct_std_set_insert: "distinct s \<Longrightarrow> distinct (std_set_insert v s)"
  by (simp add: std_set_insert_def distinct_insort)

lemma distinct_fold_std_set_insert: "distinct s \<Longrightarrow> distinct (fold std_set_insert xs s)"
  by (induction xs arbitrary: s) (simp_all add: distinct_std_set_insert)

lemma std_map_assign_sorted:
  fixes m :: "('k::linorder \<times> 'v) list"
  shows "sorted_wrt (<) (map fst m) \<Longrightarrow> sorted_wrt (<) (map fst (std_map_assign k v m))"
proof (induction m)
  case Nil
  then show ?case by simp
next
  case (Cons e m)
  have "fst ` set (std_map_assign k v m) = insert k (fst ` set m)"
    by (metis dom_fun_upd dom_map_of_conv_image_fst map_of_std_map_assign option.simps(3))
  with Cons show ?case by auto
qed

lemma sorted_map_of_None:
  fixes m :: "('k::linorder \<times> 'v) list"
  assumes "sorted_wrt (<) (map fst (e # m))" "k < fst e"
  shows "map_of (e # m) k = None"
proof -
  from assms(1) have "\<forall>x \<in> set (e # m). fst e \<le> fst x"
    by auto
  with assms(2) have "\<forall>x \<in> set (e # m). fst x \<noteq> k"
    by auto
  then have "k \<notin> fst ` set (e # m)"
    by blast
  then show ?thesis
    by (simp add: map_of_eq_None_iff)
qed

section \<open>Properties of the shared server state\<close>

lemmas server_defs =
  Server_new_def initializeMessageHistory_def acceptClient_def createMessageQueue_def
  std_map_contains_def BlockingQueue_new_def tryAcceptPlayer_def broadcast_def push_def
  waitForPlayersToStartGame_def startGame_def closeTurn_def queue_of_def hello_of_def Let_def
  setLastMessage_def collectLastMessagesFromClients_def eraseClient_def std_map_index_def
  std_map_erase_def one_player_params_def two_player_params_def alice_def bob_def

lemma lobby_with_alice_reached:
  "server_run [AcceptorAccepts, AcceptorCreatesQueue 0, ReceiverJoin 0 ''alice'' ''[::1]:5000'']
     (Server_new one_player_params) = Some (lobby_with_alice one_player_params)"
  "server_run [AcceptorAccepts, AcceptorCreatesQueue 0, ReceiverJoin 0 ''alice'' ''[::1]:5000'']
     (Server_new two_player_params) = Some (lobby_with_alice two_player_params)"
  by (simp_all add: lobby_with_alice_def server_defs)

subsection \<open>The replay a late joiner gets\<close>

lemma step_mid_game:
  assumes "mid_game_call c" "server_step c s = Some s'" "\<not> is_lobby s"
  shows "\<not> is_lobby s' \<and> params s' = params s
         \<and> message_history s' = message_history s @ turn_frames [c]"
  using assms
  by (cases c)
     (auto simp: acceptClient_def createMessageQueue_def tryAcceptPlayer_def setLastMessage_def
        eraseClient_def onQueue_def collectLastMessagesFromClients_def closeTurn_def
        broadcast_def Let_def split: if_splits prod.splits)

lemma turn_frames_Cons: "turn_frames (c # cs) = turn_frames [c] @ turn_frames cs"
  by (cases c) auto

lemma run_mid_game:
  assumes "\<forall>c \<in> set cs. mid_game_call c" "server_run cs s = Some s'" "\<not> is_lobby s"
  shows "\<not> is_lobby s' \<and> params s' = params s
         \<and> message_history s' = message_history s @ turn_frames cs"
  using assms
proof (induction cs arbitrary: s)
  case Nil
  then show ?case by simp
next
  case (Cons c cs)
  from Cons.prems obtain s1
    where s1: "server_step c s = Some s1" and r: "server_run cs s1 = Some s'"
    by (auto split: option.splits)
  from step_mid_game [OF _ s1 Cons.prems(3)] Cons.prems(1)
  have a: "\<not> is_lobby s1" "params s1 = params s"
    "message_history s1 = message_history s @ turn_frames [c]"
    by auto
  from Cons.IH [OF _ r a(1)] Cons.prems(1)
  have "\<not> is_lobby s' \<and> params s' = params s1
        \<and> message_history s' = message_history s1 @ turn_frames cs"
    by auto
  with a show ?case by (subst turn_frames_Cons) simp
qed

lemma server_run_append:
  "server_run (cs @ ds) s =
     (case server_run cs s of None \<Rightarrow> None | Some s' \<Rightarrow> server_run ds s')"
  by (induction cs arbitrary: s) (auto split: option.splits)

lemma startGame_facts:
  "message_history (startGame s) = [hello_of (params s), GameStarted (players s)]"
  "\<not> is_lobby (startGame s)"
  "params (startGame s) = params s"
  by (simp_all add: startGame_def initializeMessageHistory_def broadcast_def hello_of_def Let_def)

text \<open>
  C1, as the code has it.  Let the manager start a game in any server state \<open>s0\<close> with a
  full lobby, let any calls of a running game follow (clients connecting, joining, sending
  intents, failing; senders popping; the manager collecting intents and closing turns),
  and let the queue of a client be created then.  The queue this client is created with holds the \<open>Hello\<close>
  of the server's parameters, then the \<open>GameStarted\<close> with the players of \<open>s0\<close>, then the
  \<open>Turn\<close> frames closed so far, in the order they were closed, and nothing else: no
  \<open>AcceptedPlayer\<close> of the lobby is replayed, because \<open>startGame\<close> reseeds the history.
\<close>

theorem late_joiner_replay:
  assumes "\<forall>c \<in> set calls. mid_game_call c"
    and "server_run (ManagerStartsGame # calls @ [AcceptorCreatesQueue client_id]) s0 = Some s"
  shows "queue_of client_id s =
           Some (hello_of (params s0) # GameStarted (players s0) # turn_frames calls)"
proof -
  from assms(2) obtain s1 s2 where
    s1: "server_step ManagerStartsGame s0 = Some s1" and
    s2: "server_run calls s1 = Some s2" and
    s: "server_step (AcceptorCreatesQueue client_id) s2 = Some s"
    by (auto simp: server_run_append split: option.splits)
  from s1 have s1': "s1 = startGame s0"
    by (auto simp: waitForPlayersToStartGame_def Let_def split: if_splits)
  from run_mid_game [OF assms(1) s2] s1'
  have h: "message_history s2 =
             [hello_of (params s0), GameStarted (players s0)] @ turn_frames calls"
    by (simp add: startGame_facts)
  from s h show ?thesis
    by (auto simp: createMessageQueue_def queue_of_def map_of_std_map_assign
        BlockingQueue_new_def split: if_splits)
qed

text \<open>
  A run of the theorem: a game of one player is started and turn 0 is closed; client 1 is
  accepted, and turn 1 is closed before its queue is created.
\<close>

theorem late_joiner_replay_witness:
  "Option.bind
     (server_run
        (ManagerStartsGame #
         [ManagerClosesTurn 0 [PlayerMoved 0 (Position 0 0)], ReceiverIntent 0 PlaceBomb,
          AcceptorAccepts, ManagerCollects, ManagerClosesTurn 1 [BombPlaced 0 (Position 0 0)]] @
         [AcceptorCreatesQueue 1])
        (lobby_with_alice one_player_params))
     (queue_of 1)
   = Some [hello_of one_player_params, GameStarted [(0, alice)],
           Turn 0 [PlayerMoved 0 (Position 0 0)], Turn 1 [BombPlaced 0 (Position 0 0)]]"
proof -
  let ?calls =
    "[ManagerClosesTurn 0 [PlayerMoved 0 (Position 0 0)], ReceiverIntent 0 PlaceBomb,
      AcceptorAccepts, ManagerCollects, ManagerClosesTurn 1 [BombPlaced 0 (Position 0 0)]]"
  have mid: "\<forall>c \<in> set ?calls. mid_game_call c"
    by simp
  obtain s where run:
    "server_run (ManagerStartsGame # ?calls @ [AcceptorCreatesQueue 1])
       (lobby_with_alice one_player_params) = Some s"
    by (simp add: lobby_with_alice_def server_defs)
  from late_joiner_replay [OF mid run] run show ?thesis
    by (simp add: lobby_with_alice_def)
qed

text \<open>
  C1 as stated fails.  In the game of one player, after turn 0 is closed, client 1
  connects: client 0, connected since the lobby, has received \<open>Hello\<close>, \<open>AcceptedPlayer\<close>,
  \<open>GameStarted\<close>, \<open>Turn 0\<close>, and the queue of client 1 is seeded with \<open>Hello\<close>,
  \<open>GameStarted\<close>, \<open>Turn 0\<close>, without the \<open>AcceptedPlayer\<close> of the session.
\<close>

theorem late_joiner_misses_AcceptedPlayer:
  "Option.bind
     (server_run
        [ManagerStartsGame, ManagerClosesTurn 0 [PlayerMoved 0 (Position 0 0)],
         AcceptorAccepts, AcceptorCreatesQueue 1]
        (lobby_with_alice one_player_params))
     (queue_of 0)
   = Some [hello_of one_player_params, AcceptedPlayer 0 alice, GameStarted [(0, alice)],
           Turn 0 [PlayerMoved 0 (Position 0 0)]]
   \<and>
   Option.bind
     (server_run
        [ManagerStartsGame, ManagerClosesTurn 0 [PlayerMoved 0 (Position 0 0)],
         AcceptorAccepts, AcceptorCreatesQueue 1]
        (lobby_with_alice one_player_params))
     (queue_of 1)
   = Some [hello_of one_player_params, GameStarted [(0, alice)],
           Turn 0 [PlayerMoved 0 (Position 0 0)]]"
  by (simp add: lobby_with_alice_def server_defs)

subsection \<open>Clients that were never admitted\<close>

text \<open>
  C3 at a failing input.  In the game of one player (client 0 is player 0), client 1
  connects and never joins.  In one turn player 0 sends \<open>PlaceBomb\<close> and client 1 sends
  \<open>Move UP\<close>.  The snapshot \<open>collectLastMessagesFromClients\<close> returns holds the intent of
  client 1 under \<open>PlayerId\<close> 0, in place of the player's own: the read
  \<^verbatim>\<open>player_ids[client_id]\<close> creates the entry for client 1 with \<open>PlayerId\<close> 0.
\<close>

theorem spectator_intent_collected:
  "map_option (\<lambda>s. fst (collectLastMessagesFromClients s))
     (server_run
        [AcceptorAccepts, AcceptorCreatesQueue 1, ManagerStartsGame,
         ReceiverIntent 0 PlaceBomb, ReceiverIntent 1 (Move UP)]
        (lobby_with_alice one_player_params))
   = Some [(0, Move UP)]"
  by (simp add: lobby_with_alice_def server_defs)

text \<open>
  C5 at a failing input.  In the lobby of a game for two, client 0 is player 0; client 1
  connects, never joins, and its receiver fails.  \<open>eraseClient 1\<close> erases player 0 from
  the players table, while client 0 stays mapped to \<open>PlayerId\<close> 0: the read
  \<^verbatim>\<open>player_ids[client_id]\<close> creates \<open>PlayerId\<close> 0 for the client that has none.
\<close>

theorem spectator_erase_removes_player:
  "map_option (\<lambda>s. (players s, player_ids s))
     (server_run [AcceptorAccepts, AcceptorCreatesQueue 1, ReceiverFails 1]
        (lobby_with_alice two_player_params))
   = Some ([], [(0, 0)])"
  by (simp add: lobby_with_alice_def server_defs)

section \<open>Properties of the game manager\<close>

subsection \<open>The scores at turn 0\<close>

lemma resetScores_last:
  "players_map \<noteq> [] \<Longrightarrow>
     scores (resetScores players_map state) = [(fst (last players_map), 0)]"
  by (induction players_map arbitrary: state) (auto split: prod.splits)

text \<open>
  C2 at a failing input.  With players 0 and 1 admitted, the initialisation of turn 0
  leaves a scores table with the one entry of player 1: each round of the loop of
  \<open>resetScores\<close> clears the table before it writes its entry, so player 0 has no score.
\<close>

theorem initializeGame_two_players:
  "scores (fst (initializeGame duel_params [(0, alice), (1, bob)]
                  (GameState_new, GameManager_random duel_params))) = [(1, 0)]"
  by (simp add: initializeGame_def placeInitialBlocks_def placeInitialBlocksLoop.simps
        GameState_new_def duel_params_def std_map_contains_def Let_def)

subsection \<open>A player's move\<close>

lemma uint_word_of_int_16:
  assumes "0 \<le> i" "i < uint (w :: 16 word)"
  shows "uint (word_of_int i :: 16 word) = i"
proof -
  have "uint w < 2 ^ 16"
    using uint_bounded [of w] by simp
  with assms have "i < 2 ^ 16"
    by linarith
  with assms(1) show ?thesis
    by (simp add: uint_word_of_int take_bit_int_eq_self)
qed

lemma word_of_int_less_16:
  "0 \<le> i \<Longrightarrow> i < uint (w :: 16 word) \<Longrightarrow> (word_of_int i :: 16 word) < w"
  by (simp add: word_less_def uint_word_of_int_16)

lemma getDelta_move_delta: "getDelta d = move_delta d"
  by (cases d) (simp_all add: move_delta_def)

lemma movePlayer_in_bounds:
  assumes "0 \<le> tx" "tx < uint (size_x p)" "0 \<le> ty" "ty < uint (size_y p)"
  shows "movePlayer p p_id (Position (word_of_int tx) (word_of_int ty)) (state, events) =
           (if Position (word_of_int tx) (word_of_int ty) \<in> set (blocks state)
            then (state, events)
            else (state\<lparr>player_pos :=
                          std_map_assign p_id (Position (word_of_int tx) (word_of_int ty))
                            (player_pos state)\<rparr>,
                  events @ [PlayerMoved p_id (Position (word_of_int tx) (word_of_int ty))]))"
  using word_of_int_less_16 [OF assms(1,2)] word_of_int_less_16 [OF assms(3,4)]
  by (auto simp: movePlayer_def std_set_contains_def)

text \<open>
  C8.  Let player \<open>p_id\<close> have survived the detonations (it has a position \<open>pos\<close>) and
  let its intent in the snapshot be \<open>Move direction\<close>.  The target is \<open>pos\<close> moved by the
  delta of the table.  If the target is on the board (\<open>0 \<le> x < size_x\<close>,
  \<open>0 \<le> y < size_y\<close>) and holds no block, the player's position becomes the target and one
  \<open>PlayerMoved\<close> with the target is appended to the turn's events; otherwise neither the
  state nor the events change.  The manager then goes on with the rest of the snapshot.
\<close>

theorem move_intent:
  assumes "map_of (player_pos state) p_id = Some pos"
  shows "interpretAllClientMessages p ((p_id, Move direction) # rest) (state, events) =
           interpretAllClientMessages p rest
             (let target_x = uint (pos_x pos) + fst (move_delta direction);
                  target_y = uint (pos_y pos) + snd (move_delta direction);
                  target = Position (word_of_int target_x) (word_of_int target_y)
              in if 0 \<le> target_x \<and> target_x < uint (size_x p)
                    \<and> 0 \<le> target_y \<and> target_y < uint (size_y p)
                    \<and> target \<notin> set (blocks state)
                 then (state\<lparr>player_pos := std_map_assign p_id target (player_pos state)\<rparr>,
                       events @ [PlayerMoved p_id target])
                 else (state, events))"
proof -
  define tx where "tx = uint (pos_x pos) + fst (move_delta direction)"
  define ty where "ty = uint (pos_y pos) + snd (move_delta direction)"
  define target where "target = Position (word_of_int tx) (word_of_int ty)"
  have ix: "std_map_index (Position 0 0) p_id (player_pos state) = (pos, player_pos state)"
    using assms by (simp add: std_map_index_def)
  have step: "interpret_Move p p_id direction (state, events) =
          (if 0 \<le> tx \<and> tx < uint (size_x p) \<and> 0 \<le> ty \<and> ty < uint (size_y p)
           then movePlayer p p_id target (state, events) else (state, events))"
    unfolding tx_def ty_def target_def
    by (simp add: interpret_Move_def ix getDelta_move_delta Let_def split_beta)
  have "interpret_Move p p_id direction (state, events) =
          (if 0 \<le> tx \<and> tx < uint (size_x p) \<and> 0 \<le> ty \<and> ty < uint (size_y p)
              \<and> target \<notin> set (blocks state)
           then (state\<lparr>player_pos := std_map_assign p_id target (player_pos state)\<rparr>,
                 events @ [PlayerMoved p_id target])
           else (state, events))"
    using movePlayer_in_bounds [of tx p ty p_id state events]
    unfolding step target_def by auto
  then show ?thesis
    using assms by (simp add: std_map_contains_def Let_def tx_def ty_def target_def)
qed

text \<open>
  The player in the corner \<open>(0, 0)\<close> of the 5 by 5 board: \<open>Move LEFT\<close> leaves the board
  and is ignored, \<open>Move UP\<close> takes the robot to \<open>(0, 1)\<close>.
\<close>

theorem move_intent_witness:
  "interpretAllClientMessages board_params [(0, Move LEFT), (0, Move UP)] (corner_state, [])
     = (corner_state\<lparr>player_pos := [(0, Position 0 1)]\<rparr>, [PlayerMoved 0 (Position 0 1)])"
proof -
  have pos: "map_of (player_pos corner_state) 0 = Some (Position 0 0)"
    by (simp add: corner_state_def)
  have left:
    "interpretAllClientMessages board_params [(0, Move LEFT), (0, Move UP)] (corner_state, [])
      = interpretAllClientMessages board_params [(0, Move UP)] (corner_state, [])"
    using move_intent [OF pos, of board_params LEFT "[(0, Move UP)]" "[]"]
    by (simp add: move_delta_def del: interpretAllClientMessages.simps)
  have up:
    "interpretAllClientMessages board_params [(0, Move UP)] (corner_state, [])
      = interpretAllClientMessages board_params []
          (corner_state\<lparr>player_pos := [(0, Position 0 1)]\<rparr>, [PlayerMoved 0 (Position 0 1)])"
    using move_intent [OF pos, of board_params UP "[]" "[]"]
    by (simp add: move_delta_def board_params_def corner_state_def GameState_new_def Let_def
          del: interpretAllClientMessages.simps)
  show ?thesis
    unfolding left up by simp
qed

subsection \<open>The explosion\<close>

lemma off_board_stays:
  assumes "d \<in> set directions" "pos_x bomb_pos < size_x p" "pos_y bomb_pos < size_y p"
    and "\<not> on_board (size_x p) (size_y p) bomb_pos d r"
  shows "\<not> on_board (size_x p) (size_y p) bomb_pos d (Suc r)"
proof -
  from assms(2,3) have "uint (pos_x bomb_pos) < uint (size_x p)" "uint (pos_y bomb_pos) < uint (size_y p)"
    by (simp_all add: word_less_def)
  moreover have "0 \<le> uint (pos_x bomb_pos)" "0 \<le> uint (pos_y bomb_pos)" by simp_all
  ultimately show ?thesis
    using assms(1,4) by (auto simp: directions_def on_board_def)
qed

lemma cross_arm_off_board: "\<not> on_board sx sy bomb_pos d r \<Longrightarrow> cross_arm sx sy blks bomb_pos d n r = {}"
  by (cases n) simp_all

lemma arm_step:
  "calcExplosion_arm p state bomb_pos dx dy r acc =
     (if r \<le> explosion_radius p then
        (if on_board (size_x p) (size_y p) bomb_pos (dx, dy) (unat r) then
           (if cell bomb_pos (dx, dy) (unat r) \<in> set (blocks state)
            then Some (std_set_insert (cell bomb_pos (dx, dy) (unat r)) acc)
            else calcExplosion_arm p state bomb_pos dx dy (r + 1) (std_set_insert (cell bomb_pos (dx, dy) (unat r)) acc))
         else calcExplosion_arm p state bomb_pos dx dy (r + 1) acc)
      else Some acc)"
  by (subst calcExplosion_arm.simps)
     (simp add: on_board_def cell_def Let_def std_set_contains_def)

lemma unat_succ_below:
  fixes r n :: "16 word"
  assumes "r \<le> n" "n \<noteq> 65535"
  shows "unat (r + 1) = Suc (unat r)"
proof -
  have "unat n < 2 ^ 16" using unsigned_less [of n] by simp
  moreover have "unat n \<noteq> 65535"
  proof
    assume "unat n = 65535"
    then have "(of_nat (unat n) :: 16 word) = of_nat 65535" by simp
    with assms(2) show False by simp
  qed
  ultimately have "unat n < 65535" by simp
  moreover from assms(1) have "unat r \<le> unat n" by (simp add: word_le_nat_alt)
  ultimately have "unat r + 1 < 2 ^ 16" by simp
  then show ?thesis by (simp add: unat_word_ariths)
qed

lemma arm_cross:
  assumes "explosion_radius p \<noteq> 65535" "d \<in> set directions"
    "pos_x bomb_pos < size_x p" "pos_y bomb_pos < size_y p"
    "unat r + n = Suc (unat (explosion_radius p))"
  shows "\<exists>affected. calcExplosion_arm p state bomb_pos (fst d) (snd d) r acc = Some affected
           \<and> set affected = set acc \<union> cross_arm (size_x p) (size_y p) (set (blocks state)) bomb_pos d n (unat r)"
  using assms(5)
proof (induction n arbitrary: r acc)
  case 0
  then have "\<not> r \<le> explosion_radius p" by (simp add: word_le_nat_alt)
  then show ?case by (subst arm_step) simp
next
  case (Suc n)
  then have le: "r \<le> explosion_radius p" by (simp add: word_le_nat_alt)
  from unat_succ_below [OF le assms(1)] Suc.prems
  have next_r: "unat (r + 1) = Suc (unat r)" "unat (r + 1) + n = Suc (unat (explosion_radius p))"
    by simp_all
  show ?case
  proof (cases "on_board (size_x p) (size_y p) bomb_pos d (unat r)")
    case False
    with off_board_stays [OF assms(2,3,4)] have "\<not> on_board (size_x p) (size_y p) bomb_pos d (Suc (unat r))" by simp
    with Suc.IH [OF next_r(2), of acc] False show ?thesis
      by (subst arm_step) (simp add: le next_r(1) cross_arm_off_board)
  next
    case True
    show ?thesis
    proof (cases "cell bomb_pos d (unat r) \<in> set (blocks state)")
      case True
      with \<open>on_board (size_x p) (size_y p) bomb_pos d (unat r)\<close> show ?thesis
        by (subst arm_step) (simp add: le set_std_set_insert)
    next
      case False
      with Suc.IH [OF next_r(2), of "std_set_insert (cell bomb_pos d (unat r)) acc"]
        \<open>on_board (size_x p) (size_y p) bomb_pos d (unat r)\<close> show ?thesis
        by (subst arm_step) (auto simp: le next_r(1) set_std_set_insert)
    qed
  qed
qed

text \<open>
  The server's explosion is the cross of the specification for every radius below 65535:
  for a bomb within the bounds, \<open>calcExplosion\<close> returns, its result is the cross as a
  set, and the bomb's own cell is in it.  (The code goes on past a point out of bounds
  where the specification stops; no later point of the arm is within the bounds.)
\<close>

lemma calcExplosion_cross:
  assumes "explosion_radius p \<noteq> 65535" "pos_x bomb_pos < size_x p" "pos_y bomb_pos < size_y p"
  shows "\<exists>affected. calcExplosion p bomb_pos state = Some affected
           \<and> set affected = explosion_cross (size_x p) (size_y p) (explosion_radius p) (set (blocks state)) bomb_pos
           \<and> bomb_pos \<in> set affected"
proof -
  note arm = arm_cross [OF assms(1) _ assms(2,3), where r = 0 and n = "Suc (unat (explosion_radius p))" and state = state, simplified]
  from arm [of "(1, 0)" "[]"] obtain a1 where
    a1: "calcExplosion_arm p state bomb_pos 1 0 0 [] = Some a1"
        "set a1 = cross_arm (size_x p) (size_y p) (set (blocks state)) bomb_pos (1, 0) (Suc (unat (explosion_radius p))) 0"
    by (auto simp: directions_def)
  from arm [of "(- 1, 0)" a1] obtain a2 where
    a2: "calcExplosion_arm p state bomb_pos (- 1) 0 0 a1 = Some a2"
        "set a2 = set a1 \<union> cross_arm (size_x p) (size_y p) (set (blocks state)) bomb_pos (- 1, 0) (Suc (unat (explosion_radius p))) 0"
    by (auto simp: directions_def)
  from arm [of "(0, 1)" a2] obtain a3 where
    a3: "calcExplosion_arm p state bomb_pos 0 1 0 a2 = Some a3"
        "set a3 = set a2 \<union> cross_arm (size_x p) (size_y p) (set (blocks state)) bomb_pos (0, 1) (Suc (unat (explosion_radius p))) 0"
    by (auto simp: directions_def)
  from arm [of "(0, - 1)" a3] obtain a4 where
    a4: "calcExplosion_arm p state bomb_pos 0 (- 1) 0 a3 = Some a4"
        "set a4 = set a3 \<union> cross_arm (size_x p) (size_y p) (set (blocks state)) bomb_pos (0, - 1) (Suc (unat (explosion_radius p))) 0"
    by (auto simp: directions_def)
  have res: "calcExplosion p bomb_pos state = Some a4"
    by (simp add: calcExplosion_def directions_def a1 a2 a3 a4)
  have set4: "set a4 = explosion_cross (size_x p) (size_y p) (explosion_radius p) (set (blocks state)) bomb_pos"
    by (simp add: explosion_cross_def a1 a2 a3 a4)
  from assms(2,3) have "on_board (size_x p) (size_y p) bomb_pos (1, 0) 0"
    by (simp add: on_board_def word_less_def)
  moreover have "cell bomb_pos (1, 0) 0 = bomb_pos"
    by (simp add: cell_def)
  ultimately have "bomb_pos \<in> cross_arm (size_x p) (size_y p) (set (blocks state)) bomb_pos (1, 0) (Suc (unat (explosion_radius p))) 0"
    by simp
  with res set4 show ?thesis
    by (auto simp: explosion_cross_def)
qed

text \<open>
  With radius 65535 the test \<open>r \<le> explosion_radius\<close> holds for every 16-bit \<open>r\<close>, and the
  loop of an arm is left only at a block: on a board without blocks it has no result.
\<close>

lemma arm_never_ends:
  assumes "calcExplosion_arm p state bomb_pos dx dy r acc = Some affected"
  shows "explosion_radius p \<noteq> 65535 \<or> blocks state \<noteq> []"
proof (rule calcExplosion_arm.raw_induct
    [where P = "\<lambda>p state bomb_pos dx dy r acc affected.
                  explosion_radius p \<noteq> 65535 \<or> blocks state \<noteq> []", OF _ assms])
  fix f :: "ServerParams \<Rightarrow> GameState \<Rightarrow> Position \<Rightarrow> int \<Rightarrow> int \<Rightarrow> 16 word \<Rightarrow> Position list
      \<Rightarrow> Position list option"
    and p :: ServerParams and state :: GameState and bomb_pos :: Position
    and dx dy :: int and r :: "16 word" and acc affected :: "Position list"
  assume IH: "\<And>p state bomb_pos dx dy r acc affected.
      f p state bomb_pos dx dy r acc = Some affected \<Longrightarrow>
      explosion_radius p \<noteq> 65535 \<or> blocks state \<noteq> []"
  assume body: "(if r \<le> explosion_radius p then
        (let x = uint (pos_x bomb_pos) + dx * uint r;
             y = uint (pos_y bomb_pos) + dy * uint r
         in if 0 \<le> x \<and> x < uint (size_x p) \<and> 0 \<le> y \<and> y < uint (size_y p) then
              (let pos = Position (word_of_int x) (word_of_int y);
                   affected_pos' = std_set_insert pos acc
               in if std_set_contains pos (blocks state) then Some affected_pos'
                  else f p state bomb_pos dx dy (r + 1) affected_pos')
            else f p state bomb_pos dx dy (r + 1) acc)
      else Some acc) = Some affected"
  show "explosion_radius p \<noteq> 65535 \<or> blocks state \<noteq> []"
  proof (rule ccontr)
    assume "\<not> (explosion_radius p \<noteq> 65535 \<or> blocks state \<noteq> [])"
    then have max: "explosion_radius p = 65535" and none: "blocks state = []"
      by simp_all
    have "unat r < 2 ^ 16"
      using unsigned_less [of r] by simp
    then have "r \<le> explosion_radius p"
      unfolding max by (simp add: word_le_nat_alt)
    with body none have "\<exists>acc'. f p state bomb_pos dx dy (r + 1) acc' = Some affected"
      by (auto simp: Let_def std_set_contains_def split: if_splits)
    with IH max none show False
      by blast
  qed
qed

lemma calcExplosion_arms_never_end:
  assumes "explosion_radius p = 65535" "blocks state = []"
  shows "calcExplosion_arms p state bomb_pos directions acc = None"
proof (cases "calcExplosion_arm p state bomb_pos 1 0 0 acc")
  case None
  then show ?thesis by (simp add: directions_def)
next
  case (Some affected)
  from arm_never_ends [OF this] assms show ?thesis by simp
qed

text \<open>
  C6 at a failing input: radius 65535 (accepted by the command line, whose help gives the
  range as \<open>[0, UINT16_MAX]\<close>), a 5 by 5 board without blocks, a bomb at \<open>(2, 2)\<close>.
  \<open>calcExplosion\<close> does not return, where the cross of the specification is the row and
  the column of the bomb.
\<close>

theorem calcExplosion_max_radius:
  "calcExplosion max_radius_params (Position 2 2) GameState_new = None"
proof (cases "calcExplosion_arm max_radius_params GameState_new (Position 2 2) 1 0 0 []")
  case None
  then show ?thesis
    by (simp add: calcExplosion_def directions_def)
next
  case (Some affected)
  from arm_never_ends [OF this] show ?thesis
    by (simp add: max_radius_params_def GameState_new_def)
qed

subsection \<open>A game without intents\<close>

lemma resetScores_keys:
  "map fst pl1 = map fst pl2 \<Longrightarrow> resetScores pl1 state = resetScores pl2 state"
proof (induction pl1 arbitrary: pl2 state)
  case Nil
  then show ?case by simp
next
  case (Cons e pl1)
  then obtain e2 pl2' where pl2: "pl2 = e2 # pl2'" "fst e = fst e2" "map fst pl1 = map fst pl2'"
    by (cases pl2) auto
  with Cons.IH [OF pl2(3)] show ?case
    by (cases e; cases e2) simp
qed

lemma placeMissingRobots_keys:
  assumes "size_x p1 = size_x p2" "size_y p1 = size_y p2"
  shows "map fst pl1 = map fst pl2 \<Longrightarrow> placeMissingRobots p1 pl1 c = placeMissingRobots p2 pl2 c"
proof (induction pl1 arbitrary: pl2 c)
  case Nil
  then show ?case by (cases c) simp
next
  case (Cons e pl1)
  then obtain e2 pl2' where pl2: "pl2 = e2 # pl2'" "fst e = fst e2" "map fst pl1 = map fst pl2'"
    by (cases pl2) auto
  obtain state random events where c: "c = (state, random, events)" by (cases c)
  from pl2 Cons.IH [OF pl2(3)] assms show ?case
    by (cases e; cases e2) (simp add: c Let_def)
qed

lemma placeInitialBlocksLoop_params:
  assumes "size_x p1 = size_x p2" "size_y p1 = size_y p2" "initial_blocks p1 = initial_blocks p2"
  shows "placeInitialBlocksLoop p1 i c = placeInitialBlocksLoop p2 i c"
  using assms
proof (induction p1 i c rule: placeInitialBlocksLoop.induct)
  case (1 p i state random events)
  show ?case
  proof (cases "i < initial_blocks p")
    case True
    with "1.prems" have "i < initial_blocks p2" by simp
    with True "1.IH" [OF True refl refl refl refl] "1.prems" show ?thesis
      by (subst placeInitialBlocksLoop.simps, subst (2) placeInitialBlocksLoop.simps)
         (simp add: Let_def)
  next
    case False
    with "1.prems" have "\<not> i < initial_blocks p2" by simp
    with False show ?thesis
      by (subst placeInitialBlocksLoop.simps, subst (2) placeInitialBlocksLoop.simps) simp
  qed
qed

lemma initializeGame_params:
  assumes "same_game_params p1 p2" "map fst pl1 = map fst pl2"
  shows "initializeGame p1 pl1 c = initializeGame p2 pl2 c"
  using assms
  by (cases c)
     (simp add: initializeGame_def placeInitialBlocks_def same_game_params_def
        resetScores_keys [of pl1 pl2] placeMissingRobots_keys [of p1 p2 pl1 pl2]
        placeInitialBlocksLoop_params [of p1 p2])

lemma placeMissingRobots_all_placed:
  "all_placed players_map state \<Longrightarrow>
     placeMissingRobots p players_map (state, random, events) = (state, random, events)"
  by (induction players_map) (auto simp: all_placed_def)

lemma placeMissingRobots_absent:
  "\<not> std_map_contains player_id (player_pos state) \<Longrightarrow>
     placeMissingRobots p ((player_id, player) # rest) (state, random, events) =
     placeMissingRobots p rest
       (state\<lparr>player_pos := std_map_assign player_id (drawn_position p random) (player_pos state)\<rparr>,
        minstd_rand_next (minstd_rand_next random),
        events @ [PlayerMoved player_id (drawn_position p random)])"
  by (simp add: Let_def drawn_position_def)

lemma placeMissingRobots_present:
  "std_map_contains player_id (player_pos state) \<Longrightarrow>
     placeMissingRobots p ((player_id, player) # rest) (state, random, events) =
     placeMissingRobots p rest (state, random, events)"
  by simp

lemma placeMissingRobots_keeps:
  assumes "placeMissingRobots p players_map (state, random, events) = (state', random', events')"
  shows "bombs state' = bombs state \<and> scores state' = scores state \<and> blocks state' = blocks state
         \<and> (std_map_contains k (player_pos state) \<longrightarrow> std_map_contains k (player_pos state'))"
  using assms
proof (induction players_map arbitrary: state random events)
  case Nil
  then show ?case by simp
next
  case (Cons e players_map)
  obtain player_id player where e: "e = (player_id, player)" by (cases e)
  show ?case
  proof (cases "std_map_contains player_id (player_pos state)")
    case True
    from Cons.prems [unfolded e placeMissingRobots_present [OF True]] show ?thesis
      by (rule Cons.IH)
  next
    case False
    from Cons.prems [unfolded e placeMissingRobots_absent [OF False]]
    have "bombs state' = bombs state \<and> scores state' = scores state \<and> blocks state' = blocks state
         \<and> (std_map_contains k (std_map_assign player_id (drawn_position p random) (player_pos state))
              \<longrightarrow> std_map_contains k (player_pos state'))"
      using Cons.IH by fastforce
    then show ?thesis
      by (simp add: std_map_contains_assign)
  qed
qed

lemma placeMissingRobots_places:
  assumes "placeMissingRobots p players_map (state, random, events) = (state', random', events')"
  shows "all_placed players_map state'"
  using assms
proof (induction players_map arbitrary: state random events)
  case Nil
  then show ?case by (simp add: all_placed_def)
next
  case (Cons e players_map)
  obtain player_id player where e: "e = (player_id, player)" by (cases e)
  show ?case
  proof (cases "std_map_contains player_id (player_pos state)")
    case True
    note step = Cons.prems [unfolded e placeMissingRobots_present [OF True]]
    from placeMissingRobots_keeps [OF step, of player_id] True Cons.IH [OF step] show ?thesis
      by (simp add: all_placed_def e)
  next
    case False
    note step = Cons.prems [unfolded e placeMissingRobots_absent [OF False]]
    from placeMissingRobots_keeps [OF step, of player_id] Cons.IH [OF step] show ?thesis
      by (simp add: all_placed_def e std_map_contains_assign)
  qed
qed

lemma placeInitialBlocksLoop_keeps:
  "placeInitialBlocksLoop p i c = c' \<Longrightarrow>
     bombs (fst c') = bombs (fst c) \<and> scores (fst c') = scores (fst c)
     \<and> player_pos (fst c') = player_pos (fst c)"
proof (induction p i c arbitrary: c' rule: placeInitialBlocksLoop.induct)
  case (1 p i state random events)
  show ?case
  proof (cases "i < initial_blocks p")
    case True
    from "1.prems" "1.IH" [OF True refl refl refl refl refl] True show ?thesis
      by (subst (asm) placeInitialBlocksLoop.simps) (simp add: Let_def)
  next
    case False
    with "1.prems" show ?thesis
      by (subst (asm) placeInitialBlocksLoop.simps) auto
  qed
qed

lemma resetScores_keeps:
  "bombs (resetScores pl state) = bombs state \<and> player_pos (resetScores pl state) = player_pos state
   \<and> blocks (resetScores pl state) = blocks state"
  by (induction pl arbitrary: state) auto

lemma initializeGame_state:
  assumes "initializeGame p players_map (GameState_new, random) = (state, random', events)"
  shows "bombs state = [] \<and> all_placed players_map state"
proof -
  obtain st1 r1 ev1 where
    pm: "placeMissingRobots p players_map (resetScores players_map GameState_new, random, []) = (st1, r1, ev1)"
    by (cases "placeMissingRobots p players_map (resetScores players_map GameState_new, random, [])")
  with assms have pb: "placeInitialBlocksLoop p 0 (st1, r1, ev1) = (state, random', events)"
    by (simp add: initializeGame_def placeInitialBlocks_def)
  from placeMissingRobots_keeps [OF pm] resetScores_keeps [of players_map GameState_new]
  have "bombs st1 = []" by (simp add: GameState_new_def)
  moreover from placeMissingRobots_places [OF pm] have "all_placed players_map st1" .
  ultimately show ?thesis
    using placeInitialBlocksLoop_keeps [OF pb] by (simp add: all_placed_def)
qed

lemma updateBombs_no_bombs:
  "bombs state = [] \<Longrightarrow> updateBombs p (state, events) = Some (state, events)"
  by (simp add: updateBombs_def)

lemma playTurn_idle:
  assumes "bombs state = []" "all_placed players_map state"
  shows "playTurn p players_map [] (state, random) = Some (state, random, [])"
  using assms by (simp add: playTurn_def updateBombs_no_bombs placeMissingRobots_all_placed)

lemma turnLoop_idle:
  assumes "game_length p1 = game_length p2" "bombs state = []"
    "all_placed pl1 state" "all_placed pl2 state"
  shows "turnLoop p1 pl1 turn (replicate n []) (state, random) sent
       = turnLoop p2 pl2 turn (replicate n []) (state, random) sent"
  using assms
proof (induction n arbitrary: turn sent)
  case 0
  then show ?case by simp
next
  case (Suc n)
  from Suc.IH [OF Suc.prems] Suc.prems show ?case
    by (simp add: playTurn_idle)
qed

lemma all_placed_keys:
  "map fst pl1 = map fst pl2 \<Longrightarrow> all_placed pl1 state = all_placed pl2 state"
proof -
  assume "map fst pl1 = map fst pl2"
  moreover have "\<And>pl. all_placed pl state = list_all (\<lambda>k. std_map_contains k (player_pos state)) (map fst pl)"
    by (simp add: all_placed_def list_all_iff)
  ultimately show ?thesis by simp
qed

text \<open>
  C9.  Take parameters the server accepts and a set of admitted players.  Two runs of the
  manager from the same seed (and the same board, blocks, game length, timer and radius)
  with the same player ids and no intents at all broadcast the same frames, turn for turn:
  the events of every \<open>Turn\<close> and the scores of \<open>GameEnded\<close> are equal, for every number of
  turns one looks at, whatever the players' names and addresses, the server's name and
  port, and the duration of a turn.
\<close>

theorem idle_game_deterministic:
  assumes "valid_params p1" "same_game_params p1 p2" "map fst players1 = map fst players2"
  shows "playGame p1 players1 (replicate n []) (GameManager_random p1)
       = playGame p2 players2 (replicate n []) (GameManager_random p2)"
proof -
  from assms(2) have rnd: "GameManager_random p1 = GameManager_random p2"
    by (simp add: GameManager_random_def same_game_params_def)
  obtain state random events where
    init1: "initializeGame p1 players1 (GameState_new, GameManager_random p1) = (state, random, events)"
    by (cases "initializeGame p1 players1 (GameState_new, GameManager_random p1)")
  with initializeGame_params [OF assms(2,3)] rnd
  have init2: "initializeGame p2 players2 (GameState_new, GameManager_random p2) = (state, random, events)"
    by simp
  from initializeGame_state [OF init1] initializeGame_state [OF init2]
  have st: "bombs state = []" "all_placed players1 state" "all_placed players2 state"
    by simp_all
  from assms(2) have "game_length p1 = game_length p2"
    by (simp add: same_game_params_def)
  from turnLoop_idle [OF this st] show ?thesis
    by (simp add: playGame_def init1 init2)
qed

text \<open>
  The first scenario of the specification, run by evaluation: turn 0 places the robot
  and the two blocks, the three turns are empty, the final scores are \<open>{0: 0}\<close>.
\<close>

lemmas game_defs =
  playGame_def initializeGame_def placeInitialBlocks_def placeInitialBlocksLoop.simps
  GameState_new_def GameManager_random_def minstd_rand_seed_def minstd_rand_next_def
  std_map_contains_def std_set_insert_def std_set_contains_def std_set_erase_def
  std_map_index_def std_map_erase_def playTurn_def updateBombs_def Let_def
  less_Position_def less_eq_Position_def

lemma three_idle_turns: "replicate 3 [] = [[], [], []]"
  by (simp add: numeral_3_eq_3)

lemma scenario_game:
  "playGame scenario_params [(0, alice)] [[], [], []] (GameManager_random scenario_params) =
     ([Turn 0 [PlayerMoved 0 (Position 2 3), BlockPlaced (Position 1 3),
               BlockPlaced (Position 2 1)],
       Turn 1 [], Turn 2 [], Turn 3 [], GameEnded [(0, 0)]],
      Some (\<lparr>bombs = [], blocks = [Position 1 3, Position 2 1],
              player_pos = [(0, Position 2 3)], scores = [(0, 0)], next_bomb_id = 0\<rparr>,
            2076553157))"
  by (simp add: game_defs scenario_params_def)

text \<open>The same game under another server name, with a player of another name.\<close>

theorem idle_game_deterministic_witness:
  "playGame renamed_scenario_params [(0, bob)] (replicate 3 [])
     (GameManager_random renamed_scenario_params) =
     ([Turn 0 [PlayerMoved 0 (Position 2 3), BlockPlaced (Position 1 3),
               BlockPlaced (Position 2 1)],
       Turn 1 [], Turn 2 [], Turn 3 [], GameEnded [(0, 0)]],
      Some (\<lparr>bombs = [], blocks = [Position 1 3, Position 2 1],
              player_pos = [(0, Position 2 3)], scores = [(0, 0)], next_bomb_id = 0\<rparr>,
            2076553157))"
proof -
  have valid: "valid_params scenario_params"
    by (simp add: valid_params_def scenario_params_def)
  have same: "same_game_params scenario_params renamed_scenario_params"
    by (simp add: same_game_params_def renamed_scenario_params_def)
  have ids: "map fst [(0 :: PlayerId, alice)] = map fst [(0, bob)]"
    by simp
  from idle_game_deterministic [OF valid same ids, of 3] show ?thesis
    unfolding three_idle_turns scenario_game by simp
qed

subsection \<open>Scores and destroyed robots\<close>

lemma std_map_assign_total:
  fixes m :: "(PlayerId \<times> Score) list"
  assumes "sorted_wrt (<) (map fst m)"
  shows "score_total (std_map_assign k v m) + score_of m k = score_total m + unat v"
  using assms
proof (induction m)
  case Nil
  then show ?case by (simp add: score_total_def score_of_def)
next
  case (Cons e m)
  consider (before) "k < fst e" | (here) "k = fst e" | (after) "fst e < k"
    by fastforce
  then show ?case
  proof cases
    case before
    with sorted_map_of_None [OF Cons.prems before] show ?thesis
      by (simp add: score_total_def score_of_def)
  next
    case here
    then show ?thesis
      by (cases e) (simp add: score_total_def score_of_def)
  next
    case after
    with Cons have "score_total (std_map_assign k v m) + score_of m k = score_total m + unat v"
      by simp
    moreover from after have "score_of (e # m) k = score_of m k"
      by (cases e) (auto simp: score_of_def)
    moreover from after have "\<not> k < fst e" "k \<noteq> fst e"
      by auto
    ultimately show ?thesis
      by (simp add: score_total_def)
  qed
qed

lemma score_of_assign:
  "score_of (std_map_assign k v m) k' = (if k' = k then unat v else score_of m k')"
  by (simp add: score_of_def map_of_std_map_assign)

lemma score_increment:
  fixes sc :: "(PlayerId \<times> Score) list"
  assumes "sorted_wrt (<) (map fst sc)" "Suc (score_of sc k) < 2 ^ 32"
    and "std_map_index 0 k sc = (score, sc1)"
  shows "sorted_wrt (<) (map fst (std_map_assign k (score + 1) sc1))"
    and "score_of (std_map_assign k (score + 1) sc1) k' = (if k' = k then Suc (score_of sc k) else score_of sc k')"
    and "score_total (std_map_assign k (score + 1) sc1) = Suc (score_total sc)"
proof -
  from assms(3) have sc1: "sc1 = sc \<or> sc1 = std_map_assign k 0 sc" and
    score: "unat score = score_of sc k"
    by (auto simp: std_map_index_def score_of_def split: option.splits)
  from sc1 assms(1) have sorted1: "sorted_wrt (<) (map fst sc1)"
    by (auto simp: std_map_assign_sorted)
  from assms(3) have of1: "score_of sc1 = score_of sc"
    by (auto simp: std_map_index_def score_of_def map_of_std_map_assign split: option.splits)
  from assms(3) assms(1) std_map_assign_total [OF assms(1), of k 0] have total1: "score_total sc1 = score_total sc"
    by (auto simp: std_map_index_def score_of_def split: option.splits)
  from assms(2) score have up: "unat (score + 1) = Suc (score_of sc k)"
    by (simp add: unat_word_ariths)
  from sorted1 show "sorted_wrt (<) (map fst (std_map_assign k (score + 1) sc1))"
    by (rule std_map_assign_sorted)
  show "score_of (std_map_assign k (score + 1) sc1) k' = (if k' = k then Suc (score_of sc k) else score_of sc k')"
    by (simp add: score_of_assign up of1)
  from std_map_assign_total [OF sorted1, of k "score + 1"] show "score_total (std_map_assign k (score + 1) sc1) = Suc (score_total sc)"
    by (simp add: up of1 total1)
qed

lemma updateBombs_robots_scores:
  assumes "distinct rs" "sorted_wrt (<) (map fst (scores state))"
    and "\<forall>k. score_of (scores state) k \<le> (if k \<in> set rs then K else Suc K)"
    and "Suc K < 2 ^ 32"
  shows "sorted_wrt (<) (map fst (scores (updateBombs_robots rs state)))
       \<and> (\<forall>k. score_of (scores (updateBombs_robots rs state)) k \<le> Suc K)
       \<and> score_total (scores (updateBombs_robots rs state)) = score_total (scores state) + length rs"
  using assms(1,2,3)
proof (induction rs arbitrary: state)
  case Nil
  then show ?case by simp
next
  case (Cons r rs)
  obtain score sc1 where ix: "std_map_index 0 r (scores state) = (score, sc1)"
    by (cases "std_map_index 0 r (scores state)")
  define st1 where "st1 = state\<lparr>scores := std_map_assign r (score + 1) sc1,
                                 player_pos := std_map_erase r (player_pos state)\<rparr>"
  have unfold: "updateBombs_robots (r # rs) state = updateBombs_robots rs st1"
    by (simp add: ix st1_def)
  from Cons.prems(3) have "score_of (scores state) r \<le> K"
    by (auto dest: spec [of _ r])
  with assms(4) have small: "Suc (score_of (scores state) r) < 2 ^ 32"
    by simp
  note inc = score_increment [OF Cons.prems(2) small ix]
  have sorted1: "sorted_wrt (<) (map fst (scores st1))"
    using inc(1) by (simp add: st1_def)
  have bound1: "\<forall>k. score_of (scores st1) k \<le> (if k \<in> set rs then K else Suc K)"
  proof
    fix k
    from Cons.prems(1) have "r \<notin> set rs" by simp
    with Cons.prems(3) [rule_format, of k] \<open>score_of (scores state) r \<le> K\<close>
    show "score_of (scores st1) k \<le> (if k \<in> set rs then K else Suc K)"
      by (auto simp: st1_def inc(2) split: if_splits)
  qed
  have total1: "score_total (scores st1) = Suc (score_total (scores state))"
    using inc(3) by (simp add: st1_def)
  from Cons.prems(1) have "distinct rs" by simp
  from Cons.IH [OF this sorted1 bound1] total1 show ?case
    unfolding unfold by simp
qed

lemma destroyed_entries_append:
  "destroyed_entries (xs @ ys) = destroyed_entries xs @ destroyed_entries ys"
  by (simp add: destroyed_entries_def)

lemma updateBombs_loop_facts:
  assumes "updateBombs_loop p state visited remaining (rt, bt, ex, evs) = Some (st', rt', bt', ex', evs')"
  shows "scores st' = scores state \<and> (distinct rt \<longrightarrow> distinct rt')
       \<and> (\<exists>new. evs' = evs @ new \<and> set rt' = set rt \<union> set (destroyed_entries new))"
  using assms
proof (induction remaining arbitrary: visited rt bt ex evs)
  case Nil
  then show ?case by (auto simp: destroyed_entries_def)
next
  case (Cons e remaining)
  obtain bomb_id bomb where e: "e = (bomb_id, bomb)" by (cases e)
  show ?case
  proof (cases "timer bomb > 1")
    case True
    with Cons.prems have "updateBombs_loop p state (visited @ [(bomb_id, Bomb (position bomb) (timer bomb - 1))])
        remaining (rt, bt, ex, evs) = Some (st', rt', bt', ex', evs')"
      by (simp add: e)
    then show ?thesis by (rule Cons.IH)
  next
    case False
    with Cons.prems obtain robots blks where
      res: "calcExplosionResult p bomb_id (state\<lparr>bombs := visited @ (bomb_id, bomb) # remaining\<rparr>) = Some (robots, blks)"
      and step: "updateBombs_loop p state (visited @ [(bomb_id, bomb)]) remaining
        (fold std_set_insert robots rt, fold std_set_insert blks bt, std_set_insert bomb_id ex,
         evs @ [BombExploded bomb_id robots blks]) = Some (st', rt', bt', ex', evs')"
      by (auto simp: e split: option.splits)
    from Cons.IH [OF step] obtain new where
      a: "scores st' = scores state" "distinct (fold std_set_insert robots rt) \<longrightarrow> distinct rt'"
      and new: "evs' = (evs @ [BombExploded bomb_id robots blks]) @ new"
        "set rt' = set (fold std_set_insert robots rt) \<union> set (destroyed_entries new)"
      by blast
    have "evs' = evs @ (BombExploded bomb_id robots blks # new)
        \<and> set rt' = set rt \<union> set (destroyed_entries (BombExploded bomb_id robots blks # new))"
      using new by (auto simp: set_fold_std_set_insert destroyed_entries_def)
    with a show ?thesis
      by (blast intro: distinct_fold_std_set_insert)
  qed
qed

lemma updateBombs_scores:
  assumes "updateBombs p (state, evs) = Some (st', evs')"
    and "sorted_wrt (<) (map fst (scores state))"
    and "\<forall>k. score_of (scores state) k \<le> K" "Suc K < 2 ^ 32"
  shows "sorted_wrt (<) (map fst (scores st')) \<and> (\<forall>k. score_of (scores st') k \<le> Suc K)
       \<and> (\<exists>new. evs' = evs @ new
             \<and> score_total (scores st') = score_total (scores state) + card (set (destroyed_entries new)))"
proof -
  from assms(1) obtain state1 rt bt ex where
    loop: "updateBombs_loop p state [] (bombs state) ([], [], [], evs) = Some (state1, rt, bt, ex, evs')"
    and st': "scores st' = scores (updateBombs_robots rt state1)"
    by (auto simp: updateBombs_def Let_def split: option.splits)
  from updateBombs_loop_facts [OF loop] obtain new where
    f: "scores state1 = scores state" "distinct rt" "evs' = evs @ new" "set rt = set (destroyed_entries new)"
    by auto
  from assms(3) have "\<forall>k. score_of (scores state1) k \<le> (if k \<in> set rt then K else Suc K)"
    by (auto simp: f(1) intro: le_SucI)
  from updateBombs_robots_scores [OF f(2) _ this assms(4)] assms(2) f(1)
  have "sorted_wrt (<) (map fst (scores st')) \<and> (\<forall>k. score_of (scores st') k \<le> Suc K)
       \<and> score_total (scores st') = score_total (scores state) + length rt"
    by (simp add: st')
  moreover from f(2,4) have "length rt = card (set (destroyed_entries new))"
    by (metis distinct_card)
  ultimately show ?thesis
    using f(3) by auto
qed

lemma quiet_refl: "quiet c c"
  by (simp add: quiet_def)

lemma quiet_trans: "quiet c c1 \<Longrightarrow> quiet c1 c2 \<Longrightarrow> quiet c c2"
  by (simp add: quiet_def)

lemma quiet_placeBomb: "quiet c (placeBomb p pos c)"
  by (cases c) (simp add: quiet_def placeBomb_def Let_def destroyed_entries_def)

lemma quiet_placeBlock: "quiet c (placeBlock pos c)"
  by (cases c) (simp add: quiet_def placeBlock_def Let_def destroyed_entries_def)

lemma quiet_movePlayer: "quiet c (movePlayer p p_id pos c)"
  by (cases c) (simp add: quiet_def movePlayer_def Let_def destroyed_entries_def)

lemma quiet_player_pos: "quiet (state, events) c' \<Longrightarrow> quiet (state\<lparr>player_pos := pp\<rparr>, events) c'"
  by (simp add: quiet_def)

lemma quiet_player_pos': "quiet c' (state\<lparr>player_pos := pp\<rparr>, events) \<Longrightarrow> quiet c' (state, events)"
  by (simp add: quiet_def)

lemma quiet_interpret_PlaceBomb: "quiet c (interpret_PlaceBomb p p_id c)"
proof (cases c)
  case (Pair state events)
  obtain pos pp where ix: "std_map_index (Position 0 0) p_id (player_pos state) = (pos, pp)"
    by (cases "std_map_index (Position 0 0) p_id (player_pos state)")
  from quiet_placeBomb [of "(state\<lparr>player_pos := pp\<rparr>, events)" p pos] show ?thesis
    by (simp add: Pair interpret_PlaceBomb_def ix quiet_def)
qed

lemma quiet_interpret_PlaceBlock: "quiet c (interpret_PlaceBlock p_id c)"
proof (cases c)
  case (Pair state events)
  obtain pos pp where ix: "std_map_index (Position 0 0) p_id (player_pos state) = (pos, pp)"
    by (cases "std_map_index (Position 0 0) p_id (player_pos state)")
  obtain pos' pp' where ix': "std_map_index (Position 0 0) p_id pp = (pos', pp')"
    by (cases "std_map_index (Position 0 0) p_id pp")
  from quiet_placeBlock [of "(state\<lparr>player_pos := pp'\<rparr>, events)" pos'] show ?thesis
    by (simp add: Pair interpret_PlaceBlock_def ix ix' quiet_def Let_def)
qed

lemma quiet_interpret_Move: "quiet c (interpret_Move p p_id direction c)"
proof (cases c)
  case (Pair state events)
  obtain pos pp where ix: "std_map_index (Position 0 0) p_id (player_pos state) = (pos, pp)"
    by (cases "std_map_index (Position 0 0) p_id (player_pos state)")
  obtain delta_x delta_y where d: "getDelta direction = (delta_x, delta_y)"
    by (cases "getDelta direction")
  from quiet_movePlayer [of "(state\<lparr>player_pos := pp\<rparr>, events)" p p_id
      "Position (word_of_int (uint (pos_x pos) + delta_x)) (word_of_int (uint (pos_y pos) + delta_y))"]
  show ?thesis
    by (simp add: Pair interpret_Move_def ix d quiet_def Let_def)
qed

lemma quiet_interpretAllClientMessages: "quiet c (interpretAllClientMessages p messages c)"
proof (induction messages arbitrary: c)
  case Nil
  show ?case by (simp add: quiet_refl)
next
  case (Cons m messages)
  obtain player_id message where m: "m = (player_id, message)" by (cases m)
  let ?c1 = "case message of
             Join nm \<Rightarrow> c
           | PlaceBomb \<Rightarrow> interpret_PlaceBomb p player_id c
           | PlaceBlock \<Rightarrow> interpret_PlaceBlock player_id c
           | Move direction \<Rightarrow> interpret_Move p player_id direction c"
  have "quiet c ?c1"
    by (cases message)
       (simp_all add: quiet_refl quiet_interpret_PlaceBomb quiet_interpret_PlaceBlock
          quiet_interpret_Move)
  from quiet_trans [OF this Cons.IH [of ?c1]] Cons.IH [of c] show ?case
    by (simp add: m)
qed

lemma placeMissingRobots_quiet:
  "placeMissingRobots p players_map (state, random, events) = (state', random', events') \<Longrightarrow>
     quiet (state, events) (state', events')"
proof (induction players_map arbitrary: state random events)
  case Nil
  then show ?case by (simp add: quiet_refl)
next
  case (Cons e players_map)
  obtain player_id player where e: "e = (player_id, player)" by (cases e)
  show ?case
  proof (cases "std_map_contains player_id (player_pos state)")
    case True
    from Cons.prems [unfolded e placeMissingRobots_present [OF True]] show ?thesis
      by (rule Cons.IH)
  next
    case False
    from Cons.IH [OF Cons.prems [unfolded e placeMissingRobots_absent [OF False]]]
    show ?thesis
      by (simp add: quiet_def destroyed_entries_def)
  qed
qed

lemma placeInitialBlocksLoop_quiet:
  "placeInitialBlocksLoop p i (state, random, events) = (state', random', events') \<Longrightarrow>
     quiet (state, events) (state', events')"
proof (induction p i "(state, random, events)" arbitrary: state random events
    rule: placeInitialBlocksLoop.induct)
  case (1 p i state random events)
  show ?case
  proof (cases "i < initial_blocks p")
    case True
    from "1.prems" [unfolded placeInitialBlocksLoop.simps [of p i state random events]] True
    have "placeInitialBlocksLoop p (i + 1)
            (state\<lparr>blocks := std_set_insert (drawn_position p random) (blocks state)\<rparr>,
             minstd_rand_next (minstd_rand_next random),
             events @ [BlockPlaced (drawn_position p random)]) = (state', random', events')"
      by (simp add: Let_def drawn_position_def)
    from "1.hyps" [OF True refl refl refl refl this [unfolded drawn_position_def]] show ?thesis
      by (simp add: quiet_def destroyed_entries_def)
  next
    case False
    with "1.prems" show ?thesis
      by (subst (asm) placeInitialBlocksLoop.simps) (simp add: quiet_refl)
  qed
qed

lemma playTurn_scores:
  assumes "playTurn p players_map client_messages (state, random) = Some (state', random', events)"
    and "sorted_wrt (<) (map fst (scores state))"
    and "\<forall>k. score_of (scores state) k \<le> K" "Suc K < 2 ^ 32"
  shows "sorted_wrt (<) (map fst (scores state')) \<and> (\<forall>k. score_of (scores state') k \<le> Suc K)
       \<and> score_total (scores state') = score_total (scores state) + card (set (destroyed_entries events))"
proof -
  from assms(1) obtain state1 events1 where
    ub: "updateBombs p (state, []) = Some (state1, events1)"
    by (auto simp: playTurn_def split: option.splits)
  obtain state2 events2 where
    ia: "interpretAllClientMessages p client_messages (state1, events1) = (state2, events2)"
    by (cases "interpretAllClientMessages p client_messages (state1, events1)")
  from assms(1) ub ia have
    pm: "placeMissingRobots p players_map (state2, random, events2) = (state', random', events)"
    by (simp add: playTurn_def)
  from quiet_interpretAllClientMessages [of "(state1, events1)" p client_messages] ia
  have "quiet (state1, events1) (state2, events2)"
    by simp
  from quiet_trans [OF this placeMissingRobots_quiet [OF pm]]
  have q: "scores state' = scores state1" "destroyed_entries events = destroyed_entries events1"
    by (simp_all add: quiet_def)
  from updateBombs_scores [OF ub assms(2,3,4)] show ?thesis
    by (auto simp: q)
qed

lemma robots_destroyed_in_game_append:
  "robots_destroyed_in_game (xs @ ys) = robots_destroyed_in_game xs + robots_destroyed_in_game ys"
  by (simp add: robots_destroyed_in_game_def)

text \<open>
  With game length 65535 the test \<open>turn \<le> game_length\<close> holds for every 16-bit \<open>turn\<close>:
  the game does not end.
\<close>

lemma turnLoop_never_ends:
  "game_length p = 65535 \<Longrightarrow> snd (turnLoop p players_map turn intents c sent) = None"
proof (induction intents arbitrary: turn c sent)
  case Nil
  have "unat turn < 2 ^ 16"
    using unsigned_less [of turn] by simp
  with Nil show ?case
    by (simp add: word_le_nat_alt)
next
  case (Cons client_messages intents)
  have "unat turn < 2 ^ 16"
    using unsigned_less [of turn] by simp
  with Cons.prems have "turn \<le> game_length p"
    by (simp add: word_le_nat_alt)
  with Cons.IH [OF Cons.prems] show ?case
    by (auto split: option.splits)
qed

lemma turnLoop_scores:
  assumes "turnLoop p players_map turn intents (state, random) sent = (frames, Some (final, random'))"
    and "sorted_wrt (<) (map fst (scores state))"
    and "\<forall>k. score_of (scores state) k < unat turn"
  shows "robots_destroyed_in_game frames + score_total (scores state)
       = robots_destroyed_in_game sent + score_total (scores final)"
proof -
  from turnLoop_never_ends [of p players_map turn intents "(state, random)" sent] assms(1)
  have len: "game_length p \<noteq> 65535"
    by auto
  from assms show ?thesis
  proof (induction intents arbitrary: turn state random sent)
    case Nil
    then show ?case
      by (auto simp: robots_destroyed_in_game_def destroyed_entries_def split: if_splits)
  next
    case (Cons client_messages intents)
    show ?case
    proof (cases "turn \<le> game_length p")
      case False
      with Cons.prems(1) show ?thesis
        by (auto simp: robots_destroyed_in_game_def destroyed_entries_def)
    next
      case True
      with Cons.prems(1) obtain state1 random1 events where
        pt: "playTurn p players_map client_messages (state, random) = Some (state1, random1, events)"
        and rest: "turnLoop p players_map (turn + 1) intents (state1, random1) (sent @ [Turn turn events])
                     = (frames, Some (final, random'))"
        by (auto split: option.splits)
      have turn_small: "unat turn < 2 ^ 16"
        using unsigned_less [of turn] by simp
      from Cons.prems(3) have "0 < unat turn"
        by (metis less_nat_zero_code neq0_conv)
      define K where "K = unat turn - 1"
      with \<open>0 < unat turn\<close> have K: "Suc K = unat turn" by simp
      with Cons.prems(3) have bound: "\<forall>k. score_of (scores state) k \<le> K"
        by (metis less_Suc_eq_le)
      from K turn_small have "Suc K < 2 ^ 32" by simp
      from playTurn_scores [OF pt Cons.prems(2) bound this]
      have s1: "sorted_wrt (<) (map fst (scores state1))" "\<forall>k. score_of (scores state1) k \<le> Suc K"
        "score_total (scores state1) = score_total (scores state) + card (set (destroyed_entries events))"
        by simp_all
      from unat_succ_below [OF True len] K have "unat (turn + 1) = Suc (Suc K)"
        by simp
      with s1(2) have "\<forall>k. score_of (scores state1) k < unat (turn + 1)"
        by (simp add: less_Suc_eq_le)
      from Cons.IH [OF rest s1(1) this] s1(3) show ?thesis
        by (simp add: robots_destroyed_in_game_append robots_destroyed_in_game_def)
    qed
  qed
qed

lemma initializeGame_quiet:
  assumes "initializeGame p players_map (GameState_new, random) = (state, random', events)"
  shows "score_total (scores state) = 0 \<and> sorted_wrt (<) (map fst (scores state))
       \<and> (\<forall>k. score_of (scores state) k = 0) \<and> destroyed_entries events = []"
proof -
  let ?st0 = "resetScores players_map GameState_new"
  obtain st1 r1 ev1 where
    pm: "placeMissingRobots p players_map (?st0, random, []) = (st1, r1, ev1)"
    by (cases "placeMissingRobots p players_map (?st0, random, [])")
  with assms have pb: "placeInitialBlocksLoop p 0 (st1, r1, ev1) = (state, random', events)"
    by (simp add: initializeGame_def placeInitialBlocks_def)
  from quiet_trans [OF placeMissingRobots_quiet [OF pm] placeInitialBlocksLoop_quiet [OF pb]]
  have q: "scores state = scores ?st0" "destroyed_entries events = []"
    by (simp_all add: quiet_def destroyed_entries_def)
  have "scores ?st0 = [] \<or> (\<exists>k. scores ?st0 = [(k, 0)])"
    using resetScores_last [of players_map GameState_new]
    by (cases "players_map = []") (auto simp: GameState_new_def)
  then show ?thesis
    by (auto simp: q score_total_def score_of_def)
qed

text \<open>
  C4, as the code has it.  In every game that ends, the sum of the final scores (every
  score starts at 0, so this is the sum of the increments) equals the number of robots
  destroyed, counted turn by turn: for each \<open>Turn\<close> frame, the number of different
  \<open>PlayerId\<close>s in the \<open>robots_destroyed\<close> lists of its \<open>BombExploded\<close> events.
  \<open>updateBombs\<close> collects the destroyed robots of a turn in a set and increments each
  score once.
\<close>

theorem scores_count_robots_destroyed:
  assumes "valid_params p"
    and "playGame p players_map intents random = (frames, Some (final, random'))"
  shows "score_total (scores final) = robots_destroyed_in_game frames"
proof -
  obtain state random1 events where
    init: "initializeGame p players_map (GameState_new, random) = (state, random1, events)"
    by (cases "initializeGame p players_map (GameState_new, random)")
  with assms(2) have
    loop: "turnLoop p players_map 1 intents (state, random1) [Turn 0 events] = (frames, Some (final, random'))"
    by (simp add: playGame_def)
  from initializeGame_quiet [OF init] have
    i: "score_total (scores state) = 0" "sorted_wrt (<) (map fst (scores state))"
       "\<forall>k. score_of (scores state) k < unat (1 :: 16 word)" "destroyed_entries events = []"
    by simp_all
  from turnLoop_scores [OF loop i(2,3)] i(1,4) show ?thesis
    by (simp add: robots_destroyed_in_game_def)
qed

lemmas turn_defs =
  calcExplosionResult_def calcExplosion_def directions_def calcExplosion_arm.simps
  calcDestroyedRobots_def calcDestroyedBlocks_def interpret_PlaceBomb_def placeBomb_def

text \<open>
  The duel, run by evaluation: in turn 2 both bombs explode and each destroys both
  robots, which stand on the one cell.
\<close>

lemma duel_game:
  "playGame duel_params [(0, alice), (1, bob)] duel_intents (GameManager_random duel_params) =
    ([Turn 0 [PlayerMoved 0 (Position 0 0), PlayerMoved 1 (Position 0 0)],
      Turn 1 [BombPlaced 0 (Position 0 0), BombPlaced 1 (Position 0 0)],
      Turn 2 [BombExploded 0 [0, 1] [], BombExploded 1 [0, 1] [],
              PlayerMoved 0 (Position 0 0), PlayerMoved 1 (Position 0 0)],
      GameEnded [(0, 1), (1, 1)]],
     Some (\<lparr>bombs = [], blocks = [], player_pos = [(0, Position 0 0), (1, Position 0 0)],
             scores = [(0, 1), (1, 1)], next_bomb_id = 2\<rparr>,
           854716505))"
  by (simp add: game_defs turn_defs duel_params_def duel_intents_def)

text \<open>In the duel two robots are destroyed in turn 2, and the scores sum to 2.\<close>

theorem scores_count_robots_destroyed_witness:
  "map_prod robots_destroyed_in_game (map_option (\<lambda>c. score_total (scores (fst c))))
     (playGame duel_params [(0, alice), (1, bob)] duel_intents (GameManager_random duel_params))
   = (2, Some 2)"
proof -
  have valid: "valid_params duel_params"
    by (simp add: valid_params_def duel_params_def)
  from scores_count_robots_destroyed [OF valid duel_game] show ?thesis
    unfolding duel_game by (simp add: score_total_def)
qed

text \<open>
  C4 as stated fails in the duel: the \<open>robots_destroyed\<close> lists of the game hold four
  entries (two \<open>BombExploded\<close> events, each listing both players), and the score
  increments sum to 2.
\<close>

theorem scores_differ_from_entries:
  "map_prod entries_in_game (map_option (score_total \<circ> scores \<circ> fst))
     (playGame duel_params [(0, alice), (1, bob)] duel_intents (GameManager_random duel_params))
   = (4, Some 2)"
  unfolding duel_game
  by (simp add: entries_in_game_def destroyed_entries_def score_total_def)

subsection \<open>A game at radius 65535\<close>

lemma calcExplosion_never_returns:
  "explosion_radius p = 65535 \<Longrightarrow> blocks state = [] \<Longrightarrow>
     calcExplosion p bomb_pos state = None"
  by (simp add: calcExplosion_def calcExplosion_arms_never_end)

text \<open>
  The failing input of C6 and C10 in a game: radius 65535 on the 5 by 5 board without
  blocks, seed 42.  The robot of the one player is placed at \<open>(2, 2)\<close>, where the player
  places a bomb in turn 1.  The bomb is due in turn 3, and the manager never closes that
  turn, whatever the clients send later: no frame follows \<open>Turn 2\<close>.
\<close>

lemma game_stops_at_max_radius:
  "playGame max_radius_params [(0, alice)] ([(0, PlaceBomb)] # [] # [] # later)
     (GameManager_random max_radius_params) =
     ([Turn 0 [PlayerMoved 0 (Position 2 2)], Turn 1 [BombPlaced 0 (Position 2 2)], Turn 2 []],
      None)"
  by (simp add: game_defs calcExplosionResult_def calcExplosion_never_returns
        interpret_PlaceBomb_def placeBomb_def max_radius_params_def board_params_def)

section \<open>Properties of the client's view\<close>

subsection \<open>The client's loop and the server's loop\<close>

lemma client_arm_step:
  "BombExploded_calcExplosion_arm bomb_pos dx dy r c =
     (if r \<le> c_explosion_radius c then
        (if on_board (c_size_x c) (c_size_y c) bomb_pos (dx, dy) (unat r) then
           (if cell bomb_pos (dx, dy) (unat r) \<in> set (c_blocks c)
            then Some (c\<lparr>c_explosions := std_set_insert (cell bomb_pos (dx, dy) (unat r)) (c_explosions c)\<rparr>)
            else BombExploded_calcExplosion_arm bomb_pos dx dy (r + 1)
                   (c\<lparr>c_explosions := std_set_insert (cell bomb_pos (dx, dy) (unat r)) (c_explosions c)\<rparr>))
         else BombExploded_calcExplosion_arm bomb_pos dx dy (r + 1) c)
      else Some c)"
  by (subst BombExploded_calcExplosion_arm.simps)
     (simp add: on_board_def cell_def Let_def std_set_contains_def)

lemma arm_related_refl: "set (c_explosions c) = X \<union> set acc \<Longrightarrow> arm_related c X c acc"
  unfolding arm_related_def by (rule exI [of _ "c_explosions c"]) simp

lemma arm_related_update: "set E = X \<union> set a \<Longrightarrow> arm_related c X (c\<lparr>c_explosions := E\<rparr>) a"
  unfolding arm_related_def by blast

lemma arm_related_step: "arm_related (c\<lparr>c_explosions := E1\<rparr>) X c' a \<Longrightarrow> arm_related c X c' a"
  unfolding arm_related_def by auto

lemma arm_related_trans:
  "arm_related c X c1 a1 \<Longrightarrow> arm_related c1 X c' a \<Longrightarrow> arm_related c X c' a"
  unfolding arm_related_def by auto

lemma arm_related_same_board:
  "arm_related c X c1 a1 \<Longrightarrow> same_board c p state \<Longrightarrow> same_board c1 p state"
  unfolding arm_related_def same_board_def by auto

lemma arm_related_explosions:
  "arm_related c X c1 a1 \<Longrightarrow> set (c_explosions c1) = X \<union> set a1"
  unfolding arm_related_def by auto

lemma server_arm_body:
  "(if r \<le> explosion_radius p then
        (let x = uint (pos_x bomb_pos) + dx * uint r;
             y = uint (pos_y bomb_pos) + dy * uint r
         in if 0 \<le> x \<and> x < uint (size_x p) \<and> 0 \<le> y \<and> y < uint (size_y p) then
              (let pos = Position (word_of_int x) (word_of_int y);
                   affected_pos' = std_set_insert pos acc
               in if std_set_contains pos (blocks state) then Some affected_pos'
                  else f p state bomb_pos dx dy (r + 1) affected_pos')
            else f p state bomb_pos dx dy (r + 1) acc)
      else Some acc) =
   (if r \<le> explosion_radius p then
        (if on_board (size_x p) (size_y p) bomb_pos (dx, dy) (unat r) then
           (if cell bomb_pos (dx, dy) (unat r) \<in> set (blocks state)
            then Some (std_set_insert (cell bomb_pos (dx, dy) (unat r)) acc)
            else f p state bomb_pos dx dy (r + 1) (std_set_insert (cell bomb_pos (dx, dy) (unat r)) acc))
         else f p state bomb_pos dx dy (r + 1) acc)
      else Some acc)"
  by (simp add: on_board_def cell_def Let_def std_set_contains_def)

lemma server_arm_to_client:
  assumes "calcExplosion_arm p state bomb_pos dx dy r acc = Some affected"
  shows "\<forall>c X. same_board c p state \<longrightarrow> set (c_explosions c) = X \<union> set acc \<longrightarrow>
           (\<exists>c'. BombExploded_calcExplosion_arm bomb_pos dx dy r c = Some c' \<and> arm_related c X c' affected)"
proof (rule calcExplosion_arm.raw_induct
    [where P = "\<lambda>p state bomb_pos dx dy r acc affected.
       \<forall>c X. same_board c p state \<longrightarrow> set (c_explosions c) = X \<union> set acc \<longrightarrow>
         (\<exists>c'. BombExploded_calcExplosion_arm bomb_pos dx dy r c = Some c' \<and> arm_related c X c' affected)",
     OF _ assms])
  fix f :: "ServerParams \<Rightarrow> GameState \<Rightarrow> Position \<Rightarrow> int \<Rightarrow> int \<Rightarrow> 16 word \<Rightarrow> Position list
      \<Rightarrow> Position list option"
    and p :: ServerParams and state :: GameState and bomb_pos :: Position
    and dx dy :: int and r :: "16 word" and acc affected :: "Position list"
  assume IH: "\<And>p state bomb_pos dx dy r acc affected.
      f p state bomb_pos dx dy r acc = Some affected \<Longrightarrow>
      \<forall>c X. same_board c p state \<longrightarrow> set (c_explosions c) = X \<union> set acc \<longrightarrow>
         (\<exists>c'. BombExploded_calcExplosion_arm bomb_pos dx dy r c = Some c' \<and> arm_related c X c' affected)"
  assume "(if r \<le> explosion_radius p then
        (let x = uint (pos_x bomb_pos) + dx * uint r;
             y = uint (pos_y bomb_pos) + dy * uint r
         in if 0 \<le> x \<and> x < uint (size_x p) \<and> 0 \<le> y \<and> y < uint (size_y p) then
              (let pos = Position (word_of_int x) (word_of_int y);
                   affected_pos' = std_set_insert pos acc
               in if std_set_contains pos (blocks state) then Some affected_pos'
                  else f p state bomb_pos dx dy (r + 1) affected_pos')
            else f p state bomb_pos dx dy (r + 1) acc)
      else Some acc) = Some affected"
  from this [unfolded server_arm_body] have body: "(if r \<le> explosion_radius p then
        (if on_board (size_x p) (size_y p) bomb_pos (dx, dy) (unat r) then
           (if cell bomb_pos (dx, dy) (unat r) \<in> set (blocks state)
            then Some (std_set_insert (cell bomb_pos (dx, dy) (unat r)) acc)
            else f p state bomb_pos dx dy (r + 1) (std_set_insert (cell bomb_pos (dx, dy) (unat r)) acc))
         else f p state bomb_pos dx dy (r + 1) acc)
      else Some acc) = Some affected" .
  show "\<forall>c X. same_board c p state \<longrightarrow> set (c_explosions c) = X \<union> set acc \<longrightarrow>
         (\<exists>c'. BombExploded_calcExplosion_arm bomb_pos dx dy r c = Some c' \<and> arm_related c X c' affected)"
  proof (intro allI impI)
    fix c X
    assume sb: "same_board c p state" and ex: "set (c_explosions c) = X \<union> set acc"
    let ?pos = "cell bomb_pos (dx, dy) (unat r)"
    let ?c1 = "c\<lparr>c_explosions := std_set_insert ?pos (c_explosions c)\<rparr>"
    have sb1: "same_board ?c1 p state"
      using sb by (simp add: same_board_def)
    have ex1: "set (c_explosions ?c1) = X \<union> set (std_set_insert ?pos acc)"
      using ex by (simp add: set_std_set_insert)
    consider (exit) "\<not> r \<le> explosion_radius p"
      | (off) "r \<le> explosion_radius p" "\<not> on_board (size_x p) (size_y p) bomb_pos (dx, dy) (unat r)"
      | (block) "r \<le> explosion_radius p" "on_board (size_x p) (size_y p) bomb_pos (dx, dy) (unat r)"
          "?pos \<in> set (blocks state)"
      | (free) "r \<le> explosion_radius p" "on_board (size_x p) (size_y p) bomb_pos (dx, dy) (unat r)"
          "?pos \<notin> set (blocks state)"
      by blast
    then show "\<exists>c'. BombExploded_calcExplosion_arm bomb_pos dx dy r c = Some c' \<and> arm_related c X c' affected"
    proof cases
      case exit
      with body have "affected = acc" by simp
      with exit sb arm_related_refl [OF ex] show ?thesis
        by (subst client_arm_step) (simp add: same_board_def)
    next
      case off
      with body have "f p state bomb_pos dx dy (r + 1) acc = Some affected" by simp
      from IH [OF this, rule_format, OF sb ex] off sb show ?thesis
        by (subst client_arm_step) (simp add: same_board_def)
    next
      case block
      with body have "affected = std_set_insert ?pos acc" by simp
      with block sb arm_related_update [of "std_set_insert ?pos (c_explosions c)" X "std_set_insert ?pos acc" c] ex
      show ?thesis
        by (subst client_arm_step) (simp add: same_board_def set_std_set_insert)
    next
      case free
      with body have "f p state bomb_pos dx dy (r + 1) (std_set_insert ?pos acc) = Some affected" by simp
      from IH [OF this, rule_format, OF sb1 ex1] obtain c' where
        c': "BombExploded_calcExplosion_arm bomb_pos dx dy (r + 1) ?c1 = Some c'" "arm_related ?c1 X c' affected"
        by blast
      from c'(2) have "arm_related c X c' affected"
        by (rule arm_related_step)
      with c'(1) free sb show ?thesis
        by (subst client_arm_step) (simp add: same_board_def)
    qed
  qed
qed

lemma client_arm_body:
  "(if r \<le> c_explosion_radius c then
        (let x = uint (pos_x bomb_pos) + dx * uint r;
             y = uint (pos_y bomb_pos) + dy * uint r
         in if 0 \<le> x \<and> x < uint (c_size_x c) \<and> 0 \<le> y \<and> y < uint (c_size_y c) then
              (let pos = Position (word_of_int x) (word_of_int y);
                   c' = c\<lparr>c_explosions := std_set_insert pos (c_explosions c)\<rparr>
               in if std_set_contains pos (c_blocks c') then Some c'
                  else f bomb_pos dx dy (r + 1) c')
            else f bomb_pos dx dy (r + 1) c)
      else Some c) =
   (if r \<le> c_explosion_radius c then
        (if on_board (c_size_x c) (c_size_y c) bomb_pos (dx, dy) (unat r) then
           (if cell bomb_pos (dx, dy) (unat r) \<in> set (c_blocks c)
            then Some (c\<lparr>c_explosions := std_set_insert (cell bomb_pos (dx, dy) (unat r)) (c_explosions c)\<rparr>)
            else f bomb_pos dx dy (r + 1)
                   (c\<lparr>c_explosions := std_set_insert (cell bomb_pos (dx, dy) (unat r)) (c_explosions c)\<rparr>))
         else f bomb_pos dx dy (r + 1) c)
      else Some c)"
  by (simp add: on_board_def cell_def Let_def std_set_contains_def)

lemma client_arm_to_server:
  assumes "BombExploded_calcExplosion_arm bomb_pos dx dy r c = Some c'"
  shows "\<forall>p state acc X. same_board c p state \<longrightarrow> set (c_explosions c) = X \<union> set acc \<longrightarrow>
           (\<exists>affected. calcExplosion_arm p state bomb_pos dx dy r acc = Some affected
               \<and> arm_related c X c' affected)"
proof (rule BombExploded_calcExplosion_arm.raw_induct
    [where P = "\<lambda>bomb_pos dx dy r c c'.
       \<forall>p state acc X. same_board c p state \<longrightarrow> set (c_explosions c) = X \<union> set acc \<longrightarrow>
           (\<exists>affected. calcExplosion_arm p state bomb_pos dx dy r acc = Some affected
               \<and> arm_related c X c' affected)",
     OF _ assms])
  fix f :: "Position \<Rightarrow> int \<Rightarrow> int \<Rightarrow> 16 word \<Rightarrow> ClientState \<Rightarrow> ClientState option"
    and bomb_pos :: Position and dx dy :: int and r :: "16 word" and c c' :: ClientState
  assume IH: "\<And>bomb_pos dx dy r c c'.
      f bomb_pos dx dy r c = Some c' \<Longrightarrow>
      \<forall>p state acc X. same_board c p state \<longrightarrow> set (c_explosions c) = X \<union> set acc \<longrightarrow>
           (\<exists>affected. calcExplosion_arm p state bomb_pos dx dy r acc = Some affected
               \<and> arm_related c X c' affected)"
  assume "(if r \<le> c_explosion_radius c then
        (let x = uint (pos_x bomb_pos) + dx * uint r;
             y = uint (pos_y bomb_pos) + dy * uint r
         in if 0 \<le> x \<and> x < uint (c_size_x c) \<and> 0 \<le> y \<and> y < uint (c_size_y c) then
              (let pos = Position (word_of_int x) (word_of_int y);
                   c' = c\<lparr>c_explosions := std_set_insert pos (c_explosions c)\<rparr>
               in if std_set_contains pos (c_blocks c') then Some c'
                  else f bomb_pos dx dy (r + 1) c')
            else f bomb_pos dx dy (r + 1) c)
      else Some c) = Some c'"
  from this [unfolded client_arm_body] have body: "(if r \<le> c_explosion_radius c then
        (if on_board (c_size_x c) (c_size_y c) bomb_pos (dx, dy) (unat r) then
           (if cell bomb_pos (dx, dy) (unat r) \<in> set (c_blocks c)
            then Some (c\<lparr>c_explosions := std_set_insert (cell bomb_pos (dx, dy) (unat r)) (c_explosions c)\<rparr>)
            else f bomb_pos dx dy (r + 1)
                   (c\<lparr>c_explosions := std_set_insert (cell bomb_pos (dx, dy) (unat r)) (c_explosions c)\<rparr>))
         else f bomb_pos dx dy (r + 1) c)
      else Some c) = Some c'" .
  show "\<forall>p state acc X. same_board c p state \<longrightarrow> set (c_explosions c) = X \<union> set acc \<longrightarrow>
           (\<exists>affected. calcExplosion_arm p state bomb_pos dx dy r acc = Some affected
               \<and> arm_related c X c' affected)"
  proof (intro allI impI)
    fix p state acc X
    assume sb: "same_board c p state" and ex: "set (c_explosions c) = X \<union> set acc"
    let ?pos = "cell bomb_pos (dx, dy) (unat r)"
    let ?c1 = "c\<lparr>c_explosions := std_set_insert ?pos (c_explosions c)\<rparr>"
    have sb1: "same_board ?c1 p state"
      using sb by (simp add: same_board_def)
    have ex1: "set (c_explosions ?c1) = X \<union> set (std_set_insert ?pos acc)"
      using ex by (simp add: set_std_set_insert)
    consider (exit) "\<not> r \<le> c_explosion_radius c"
      | (off) "r \<le> c_explosion_radius c" "\<not> on_board (c_size_x c) (c_size_y c) bomb_pos (dx, dy) (unat r)"
      | (block) "r \<le> c_explosion_radius c" "on_board (c_size_x c) (c_size_y c) bomb_pos (dx, dy) (unat r)"
          "?pos \<in> set (c_blocks c)"
      | (free) "r \<le> c_explosion_radius c" "on_board (c_size_x c) (c_size_y c) bomb_pos (dx, dy) (unat r)"
          "?pos \<notin> set (c_blocks c)"
      by blast
    then show "\<exists>affected. calcExplosion_arm p state bomb_pos dx dy r acc = Some affected
               \<and> arm_related c X c' affected"
    proof cases
      case exit
      with body have "c' = c" by simp
      with exit sb arm_related_refl [OF ex] show ?thesis
        by (subst arm_step) (simp add: same_board_def)
    next
      case off
      with body have "f bomb_pos dx dy (r + 1) c = Some c'" by simp
      from IH [OF this, rule_format, OF sb ex] off sb show ?thesis
        by (subst arm_step) (simp add: same_board_def)
    next
      case block
      with body have "c' = ?c1" by simp
      with block sb arm_related_update [of "std_set_insert ?pos (c_explosions c)" X "std_set_insert ?pos acc" c] ex
      show ?thesis
        by (subst arm_step) (simp add: same_board_def set_std_set_insert)
    next
      case free
      with body have "f bomb_pos dx dy (r + 1) ?c1 = Some c'" by simp
      from IH [OF this, rule_format, OF sb1 ex1] obtain affected where
        a: "calcExplosion_arm p state bomb_pos dx dy (r + 1) (std_set_insert ?pos acc) = Some affected"
          "arm_related ?c1 X c' affected"
        by blast
      from a(2) have "arm_related c X c' affected"
        by (rule arm_related_step)
      with a(1) free sb show ?thesis
        by (subst arm_step) (simp add: same_board_def)
    qed
  qed
qed

lemma arm_equiv:
  assumes "same_board c p state" "set (c_explosions c) = X \<union> set acc"
  shows "rel_option (arm_related c X)
           (BombExploded_calcExplosion_arm bomb_pos dx dy r c)
           (calcExplosion_arm p state bomb_pos dx dy r acc)"
proof (cases "calcExplosion_arm p state bomb_pos dx dy r acc")
  case (Some affected)
  from server_arm_to_client [OF this, rule_format, OF assms] Some show ?thesis
    by auto
next
  case None
  show ?thesis
  proof (cases "BombExploded_calcExplosion_arm bomb_pos dx dy r c")
    case (Some c')
    from client_arm_to_server [OF this, rule_format, OF assms] None show ?thesis
      by auto
  next
    case client: None
    with None show ?thesis by simp
  qed
qed

lemma arms_equiv:
  assumes "same_board c p state" "set (c_explosions c) = X \<union> set acc"
  shows "rel_option (arm_related c X)
           (BombExploded_calcExplosion_arms bomb_pos ds c)
           (calcExplosion_arms p state bomb_pos ds acc)"
  using assms
proof (induction ds arbitrary: c acc)
  case Nil
  then show ?case by (simp add: arm_related_refl)
next
  case (Cons d ds)
  obtain dx dy where d: "d = (dx, dy)" by (cases d)
  from arm_equiv [OF Cons.prems, of bomb_pos dx dy 0]
  show ?case
  proof (cases rule: option.rel_cases)
    case None
    then show ?thesis by (simp add: d)
  next
    case (Some c1 a1)
    from Some(3) Cons.prems(1) have sb1: "same_board c1 p state"
      by (rule arm_related_same_board)
    from Some(3) have ex1: "set (c_explosions c1) = X \<union> set a1"
      by (rule arm_related_explosions)
    from Cons.IH [OF sb1 ex1]
    have "rel_option (arm_related c X)
           (BombExploded_calcExplosion_arms bomb_pos ds c1)
           (calcExplosion_arms p state bomb_pos ds a1)"
      by (rule option.rel_mono_strong) (rule arm_related_trans [OF Some(3)])
    with Some(1,2) show ?thesis by (simp add: d)
  qed
qed

lemma stored_bomb_position_index:
  "position (fst (std_map_index (Bomb (Position 0 0) 0) bomb_id (c_bombs c))) = stored_bomb_position bomb_id c"
  by (simp add: std_map_index_def stored_bomb_position_def split: option.splits)

text \<open>
  C7.  On identical input (the same board dimensions, radius and set of blocks, and the
  bomb at the position the client has stored for it) the client's \<open>calcExplosion\<close> and the
  server's \<open>calcExplosion\<close> either both return or both do not, and when they return, the
  client's \<open>explosions\<close> holds what it held before and exactly the cells of the server's
  affected set.
\<close>

theorem client_explosion_is_server_explosion:
  assumes "same_board c p state"
  shows "map_option (\<lambda>c'. set (c_explosions c')) (BombExploded_calcExplosion bomb_id c) =
         map_option (\<lambda>affected. set (c_explosions c) \<union> set affected)
           (calcExplosion p (stored_bomb_position bomb_id c) state)"
proof -
  obtain bomb bs where ix: "std_map_index (Bomb (Position 0 0) 0) bomb_id (c_bombs c) = (bomb, bs)"
    by (cases "std_map_index (Bomb (Position 0 0) 0) bomb_id (c_bombs c)")
  with stored_bomb_position_index [of bomb_id c]
  have pos: "position bomb = stored_bomb_position bomb_id c" by simp
  let ?c1 = "c\<lparr>c_bombs := bs\<rparr>"
  from assms have sb: "same_board ?c1 p state"
    by (simp add: same_board_def)
  have ex: "set (c_explosions ?c1) = set (c_explosions c) \<union> set []"
    by simp
  have client: "BombExploded_calcExplosion bomb_id c =
      BombExploded_calcExplosion_arms (stored_bomb_position bomb_id c) directions ?c1"
    by (simp add: BombExploded_calcExplosion_def ix pos)
  from arms_equiv [OF sb ex, of "stored_bomb_position bomb_id c" directions]
  show ?thesis
    unfolding client calcExplosion_def
    by (cases rule: option.rel_cases) (auto simp: arm_related_def)
qed

text \<open>
  The bomb at \<open>(1, 2)\<close> with the block two cells east: both sides yield the bomb's cell,
  the two cells east up to the block, the cell west and the column of the bomb.
\<close>

lemma example_explosion:
  "calcExplosion board_params (Position 1 2) example_state =
     Some [Position 0 2, Position 1 0, Position 1 1, Position 1 2, Position 1 3, Position 1 4,
           Position 2 2, Position 3 2]"
  by code_simp

theorem client_explosion_is_server_explosion_witness:
  "map_option (\<lambda>c'. set (c_explosions c')) (BombExploded_calcExplosion 0 example_client) =
     Some {Position 0 2, Position 1 0, Position 1 1, Position 1 2, Position 1 3, Position 1 4,
           Position 2 2, Position 3 2}"
proof -
  have sb: "same_board example_client board_params example_state"
    by (simp add: same_board_def example_client_def board_params_def example_state_def)
  have pos: "stored_bomb_position 0 example_client = Position 1 2"
    by (simp add: stored_bomb_position_def example_client_def)
  from client_explosion_is_server_explosion [OF sb, of 0] show ?thesis
    unfolding pos example_explosion by (simp add: example_client_def)
qed

subsection \<open>A \<open>BombExploded\<close> for a bomb the client does not hold\<close>

lemma BombExploded_robots_frame:
  "c_explosions (BombExploded_robots rs c) = c_explosions c"
  "c_bombs (BombExploded_robots rs c) = c_bombs c"
  "c_blocks_destroyed_in_turn (BombExploded_robots rs c) = c_blocks_destroyed_in_turn c"
  "set (c_robots_destroyed_in_turn (BombExploded_robots rs c)) = set (c_robots_destroyed_in_turn c) \<union> set rs"
  by (induction rs arbitrary: c) (auto simp: set_std_set_insert)

text \<open>
  For every radius below 65535 and a board that has the cell \<open>(0, 0)\<close>: applying a
  \<open>BombExploded\<close> whose id the client does not hold returns; \<open>explosions\<close> gains the cross
  centred at \<open>(0, 0)\<close>, the listed blocks and robots are recorded as destroyed, and the
  bombs map does not contain the id afterwards.
\<close>

lemma BombExploded_apply_absent:
  assumes "map_of (c_bombs c) bomb_id = None" "c_explosion_radius c \<noteq> 65535"
    "0 < c_size_x c" "0 < c_size_y c"
  shows "\<exists>c'. BombExploded_apply bomb_id robots_destroyed blocks_destroyed c = Some c'
           \<and> set (c_explosions c') = set (c_explosions c)
                \<union> explosion_cross (c_size_x c) (c_size_y c) (c_explosion_radius c) (set (c_blocks c)) (Position 0 0)
           \<and> set (c_blocks_destroyed_in_turn c') = set (c_blocks_destroyed_in_turn c) \<union> set blocks_destroyed
           \<and> set (c_robots_destroyed_in_turn c') = set (c_robots_destroyed_in_turn c) \<union> set robots_destroyed
           \<and> map_of (c_bombs c') bomb_id = None"
proof -
  define p where "p = board_params\<lparr>size_x := c_size_x c, size_y := c_size_y c,
                                  explosion_radius := c_explosion_radius c\<rparr>"
  define state where "state = GameState_new\<lparr>blocks := c_blocks c\<rparr>"
  define c1 where "c1 = c\<lparr>c_bombs := std_map_assign bomb_id (Bomb (Position 0 0) 0) (c_bombs c)\<rparr>"
  have sb: "same_board c1 p state"
    by (simp add: same_board_def p_def state_def c1_def)
  have ex: "set (c_explosions c1) = set (c_explosions c) \<union> set []"
    by (simp add: c1_def)
  from assms(2,3,4) calcExplosion_cross [of p "Position 0 0" state]
  obtain affected where srv: "calcExplosion p (Position 0 0) state = Some affected"
    and cross: "set affected = explosion_cross (c_size_x c) (c_size_y c) (c_explosion_radius c) (set (c_blocks c)) (Position 0 0)"
    by (auto simp: p_def state_def)
  from arms_equiv [OF sb ex, of "Position 0 0" directions] srv
  obtain c2 where c2: "BombExploded_calcExplosion_arms (Position 0 0) directions c1 = Some c2"
    and rel: "arm_related c1 (set (c_explosions c)) c2 affected"
    by (cases rule: option.rel_cases) (auto simp: calcExplosion_def)
  from rel obtain E where E: "c2 = c1\<lparr>c_explosions := E\<rparr>" "set E = set (c_explosions c) \<union> set affected"
    by (auto simp: arm_related_def)
  have calc: "BombExploded_calcExplosion bomb_id c = Some c2"
    using assms(1) c2 by (simp add: BombExploded_calcExplosion_def std_map_index_def c1_def)
  show ?thesis
    by (simp add: BombExploded_apply_def calc Let_def BombExploded_robots_frame
        set_fold_std_set_insert map_of_std_map_erase E c1_def cross)
qed

text \<open>
  C10 at a failing input: the client was told radius 65535 and holds no blocks; a
  \<open>BombExploded\<close> with id 7, which it does not hold, arrives.  The loop of the first arm
  does not end, so \<open>apply\<close> does not return: nothing is recorded as destroyed and the id
  is not erased.
\<close>

theorem BombExploded_apply_max_radius:
  "BombExploded_apply 7 [] [] stuck_client = None"
proof -
  define c1 where "c1 = stuck_client\<lparr>c_bombs := [(7, Bomb (Position 0 0) 0)]\<rparr>"
  have sb: "same_board c1 max_radius_params GameState_new"
    by (simp add: same_board_def c1_def stuck_client_def example_client_def max_radius_params_def
        board_params_def GameState_new_def)
  have ex: "set (c_explosions c1) = {} \<union> set []"
    by (simp add: c1_def stuck_client_def example_client_def)
  have "calcExplosion_arms max_radius_params GameState_new (Position 0 0) directions [] = None"
    by (rule calcExplosion_arms_never_end) (simp_all add: max_radius_params_def GameState_new_def)
  with arms_equiv [OF sb ex, of "Position 0 0" directions]
  have "BombExploded_calcExplosion_arms (Position 0 0) directions c1 = None"
    by simp
  then have "BombExploded_calcExplosion 7 stuck_client = None"
    by (simp add: BombExploded_calcExplosion_def std_map_index_def c1_def stuck_client_def
        example_client_def)
  then show ?thesis
    by (simp add: BombExploded_apply_def)
qed

end
